theory Spec2Isabelle
  imports Main "HOL-Library.AList"
begin

section \<open>Python values, dictionaries and exceptions\<close>

text \<open>
  The module \<^verbatim>\<open>sentry/grouping/strategies/base.py\<close> works on dictionaries, on strategy
  objects, on a stack of context overlays and on grouping components. A Python \<^verbatim>\<open>dict\<close>
  keeps its keys in insertion order and holds each key once, so it is an association list:
  \<^verbatim>\<open>d[k] = v\<close> overwrites the entry in place when \<^verbatim>\<open>k\<close> is present and appends it
  otherwise, \<^verbatim>\<open>d.pop(k, None)\<close> drops the entry, \<^verbatim>\<open>d.get(k)\<close> reads it.
\<close>

type_synonym ('k, 'v) dict = "('k \<times> 'v) list"

definition dict_get :: "('k, 'v) dict \<Rightarrow> 'k \<Rightarrow> 'v option" where
  "dict_get d k = map_of d k"

definition dict_set :: "('k, 'v) dict \<Rightarrow> 'k \<Rightarrow> 'v \<Rightarrow> ('k, 'v) dict" where
  "dict_set d k v = AList.update k v d"

definition dict_pop :: "('k, 'v) dict \<Rightarrow> 'k \<Rightarrow> ('k, 'v) dict" where
  "dict_pop d k = AList.delete k d"

definition dict_values :: "('k, 'v) dict \<Rightarrow> 'v list" where
  "dict_values d = map snd d"

text \<open>\<^verbatim>\<open>d.update(e)\<close>: every entry of \<^verbatim>\<open>e\<close>, in its order, is stored into \<^verbatim>\<open>d\<close>.\<close>

definition dict_update :: "('k, 'v) dict \<Rightarrow> ('k, 'v) dict \<Rightarrow> ('k, 'v) dict" where
  "dict_update d e = foldl (\<lambda>acc kv. dict_set acc (fst kv) (snd kv)) d e"

text \<open>The values a context overlay holds: \<^verbatim>\<open>None\<close>, strings, numbers and booleans.\<close>

datatype pyvalue = PyNone | PyStr string | PyInt int | PyBool bool

text \<open>
  Every \<^verbatim>\<open>raise\<close>, failed \<^verbatim>\<open>assert\<close> and failing built-in operation of the module is a
  value of \<open>error\<close>. The two \<^verbatim>\<open>RuntimeError\<close>s of the configuration builder carry the
  values their messages are formatted from:
  \<^item> \<open>LookupError sid\<close>: \<^verbatim>\<open>LookupError("Unknown strategy %r" % strategy_id)\<close>;
  \<^item> \<open>RuntimeError_unscored sid cid\<close>:
    \<^verbatim>\<open>RuntimeError(f"Unscored strategy {strategy_id} added to {id}")\<close>;
  \<^item> \<open>RuntimeError_duplicate cid iface\<close>:
    \<^verbatim>\<open>RuntimeError("duplicate interface match for delegate %r (conflict on %r)" % (id, interface))\<close>;
  \<^item> \<open>KeyError k\<close>: a missing dictionary or context key;
  \<^item> \<open>AssertionError\<close>: a failed \<^verbatim>\<open>assert\<close>;
  \<^item> \<open>TypeError\<close>: \<^verbatim>\<open>len(None)\<close>, or \<^verbatim>\<open>"!" + x\<close> for an \<^verbatim>\<open>x\<close> that is not a string;
  \<^item> \<open>IndexError\<close>: \<^verbatim>\<open>_stack[-1]\<close> or \<^verbatim>\<open>_stack.pop()\<close> on an empty stack.
\<close>

datatype error =
    LookupError string
  | RuntimeError_unscored string string
  | RuntimeError_duplicate string string
  | KeyError string
  | AssertionError
  | TypeError
  | IndexError

section \<open>The grouping context\<close>

text \<open>
  \<^verbatim>\<open>GroupingContext\<close> is a stack of overlays, innermost last. Its \<^verbatim>\<open>config\<close> attribute
  is only read by the delegate dispatch, which no function below calls, and is left out.
\<close>

record GroupingContext =
  stack :: "(string, pyvalue) dict list"

definition push :: "GroupingContext \<Rightarrow> GroupingContext" where
  "push ctx = ctx\<lparr>stack := stack ctx @ [[]]\<rparr>"

definition pop :: "GroupingContext \<Rightarrow> error + GroupingContext" where
  "pop ctx = (if stack ctx = [] then Inl IndexError
              else Inr (ctx\<lparr>stack := butlast (stack ctx)\<rparr>))"

text \<open>\<^verbatim>\<open>__setitem__\<close>: \<^verbatim>\<open>self._stack[-1][key] = value\<close>.\<close>

definition setitem :: "GroupingContext \<Rightarrow> string \<Rightarrow> pyvalue \<Rightarrow> error + GroupingContext" where
  "setitem ctx key v =
     (if stack ctx = [] then Inl IndexError
      else Inr (ctx\<lparr>stack := butlast (stack ctx) @ [dict_set (last (stack ctx)) key v]\<rparr>))"

text \<open>\<^verbatim>\<open>__getitem__\<close>: the overlays are searched from the innermost one outwards.\<close>

fun lookup_overlays :: "(string, pyvalue) dict list \<Rightarrow> string \<Rightarrow> pyvalue option" where
  "lookup_overlays [] key = None"
| "lookup_overlays (d # ds) key =
     (case dict_get d key of Some v \<Rightarrow> Some v | None \<Rightarrow> lookup_overlays ds key)"

definition getitem :: "GroupingContext \<Rightarrow> string \<Rightarrow> error + pyvalue" where
  "getitem ctx key =
     (case lookup_overlays (rev (stack ctx)) key of
        None \<Rightarrow> Inl (KeyError key)
      | Some v \<Rightarrow> Inr v)"

text \<open>
  \<^verbatim>\<open>GroupingContext.__init__\<close>: the stack starts as the configuration's initial context,
  one overlay is pushed and \<^verbatim>\<open>variant\<close> is set to \<^verbatim>\<open>None\<close> in it.
\<close>

definition GroupingContext_init :: "(string, pyvalue) dict \<Rightarrow> GroupingContext" where
  "GroupingContext_init initial_context =
     \<lparr>stack = [initial_context, dict_set [] ''variant'' PyNone]\<rparr>"

section \<open>Grouping components\<close>

text \<open>
  Modelled from the spec: the class \<^verbatim>\<open>GroupingComponent\<close> lives in
  \<^verbatim>\<open>sentry/grouping/component.py\<close>, which is not among the sources. The specification
  gives its contract: a component exposes the flag \<^verbatim>\<open>contributes\<close>, carries a
  human-readable \<^verbatim>\<open>hint\<close>, and \<^verbatim>\<open>update(contributes=..., hint=...)\<close> overwrites both.
  Everything else a component holds is the field \<open>component_values\<close>. The hash
  \<^verbatim>\<open>get_hash()\<close> is not fixed here: every function below takes it as the parameter
  \<open>get_hash\<close>, a function of the component's current state, so the results hold for
  every hash function.
\<close>

record 'c Component =
  contributes :: bool
  hint :: "string option"
  component_values :: 'c

definition update :: "'c Component \<Rightarrow> bool \<Rightarrow> string \<Rightarrow> 'c Component" where
  "update component c h = component\<lparr>contributes := c, hint := Some h\<rparr>"

text \<open>
  Components are objects and \<^verbatim>\<open>update\<close> changes the object it is called on, whoever
  else holds it. A component is therefore named by its address, and the state of every
  component is read from the world: \<open>components w a\<close> is the state of the object at
  address \<open>a\<close>. The rest of the world, \<open>outside\<close>, is whatever else a wrapped function can
  change. \<open>update_component\<close> is \<^verbatim>\<open>component.update(...)\<close> on the object at an address.
\<close>

record ('c, 'w) world =
  components :: "nat \<Rightarrow> 'c Component"
  outside :: 'w

definition update_component ::
  "('c, 'w) world \<Rightarrow> nat \<Rightarrow> bool \<Rightarrow> string \<Rightarrow> ('c, 'w) world" where
  "update_component w a c h = w\<lparr>components := (components w)(a := update (components w a) c h)\<rparr>"

section \<open>The variant resolution algorithm\<close>

text \<open>
  A wrapped function \<^verbatim>\<open>f(*args, **kwargs)\<close> is called with fixed arguments; what varies
  between calls is the context it reads and the world. It is a function of the context
  and of the world, returning the new world and either an exception or its result:
  \<^verbatim>\<open>None\<close> or a dictionary from variant names to components (a component is an address,
  or \<^verbatim>\<open>None\<close>). It may create and change components, and it may return an object it
  returned before. A call that is not made leaves the world as it is, so the number of
  calls is visible in it.
\<close>

type_synonym variants = "(string, nat option) dict"

type_synonym ('c, 'w) wrapped =
  "GroupingContext \<Rightarrow> ('c, 'w) world \<Rightarrow> (error + variants option) \<times> ('c, 'w) world"

text \<open>The local variables of \<^verbatim>\<open>call_with_variants\<close> that the first loop fills.\<close>

record 'h resolution =
  rv :: "(string, nat) dict"
  has_mandatory_hashes :: bool
  mandatory_contributing_hashes :: "('h, string) dict"
  optional_contributing_variants :: "string list"

definition initial_resolution :: "'h resolution" where
  "initial_resolution =
     \<lparr>rv = [], has_mandatory_hashes = False, mandatory_contributing_hashes = [],
      optional_contributing_variants = []\<rparr>"

text \<open>
  The body of \<^verbatim>\<open>with context:\<close> in the first loop: push an overlay, pin the variant,
  call the function, check that it returned one entry and read the entry of the
  variant. The overlay is popped on every exit, so the caller's context is unchanged.
\<close>

definition invoke_pinned ::
  "('c, 'w) wrapped \<Rightarrow> GroupingContext \<Rightarrow> string \<Rightarrow> ('c, 'w) world \<Rightarrow>
   (error + nat option) \<times> ('c, 'w) world" where
  "invoke_pinned f ctx variant w =
     (case setitem (push ctx) ''variant'' (PyStr variant) of
        Inl e \<Rightarrow> (Inl e, w)
      | Inr ctx' \<Rightarrow>
          (case f ctx' w of
             (Inl e, w') \<Rightarrow> (Inl e, w')
           | (Inr None, w') \<Rightarrow> (Inl TypeError, w')
           | (Inr (Some variants), w') \<Rightarrow>
               if length variants \<noteq> 1 then (Inl AssertionError, w')
               else (case dict_get variants variant of
                       None \<Rightarrow> (Inl (KeyError variant), w')
                     | Some component \<Rightarrow> (Inr component, w'))))"

text \<open>
  The rest of the first loop's body, for a component that is not \<^verbatim>\<open>None\<close>. The
  component's flag and hash are read from the world as the call left it.
\<close>

definition record_component ::
  "('c Component \<Rightarrow> 'h) \<Rightarrow> bool \<Rightarrow> string \<Rightarrow> nat \<Rightarrow> ('c, 'w) world \<Rightarrow> 'h resolution \<Rightarrow>
   'h resolution" where
  "record_component get_hash is_mandatory variant component w st =
     (let st1 = (if is_mandatory then st\<lparr>has_mandatory_hashes := True\<rparr> else st);
          st2 = (if contributes (components w component) then
                   (if is_mandatory then
                      st1\<lparr>mandatory_contributing_hashes :=
                            dict_set (mandatory_contributing_hashes st1)
                              (get_hash (components w component)) variant\<rparr>
                    else
                      st1\<lparr>optional_contributing_variants :=
                            optional_contributing_variants st1 @ [variant]\<rparr>)
                 else st1)
      in st2\<lparr>rv := dict_set (rv st2) variant component\<rparr>)"

text \<open>
  The first loop, \<^verbatim>\<open>for variant in variants\<close>. \<^verbatim>\<open>variant[:1] == "!"\<close> is \<open>take 1 v = ''!''\<close>
  and \<^verbatim>\<open>variant.lstrip("!")\<close> drops every leading \<^verbatim>\<open>!\<close>.
\<close>

fun collect_variants ::
  "('c Component \<Rightarrow> 'h) \<Rightarrow> ('c, 'w) wrapped \<Rightarrow> GroupingContext \<Rightarrow> string list \<Rightarrow>
   'h resolution \<Rightarrow> ('c, 'w) world \<Rightarrow> (error + 'h resolution) \<times> ('c, 'w) world" where
  "collect_variants get_hash f ctx [] st w = (Inr st, w)"
| "collect_variants get_hash f ctx (v # vs) st w =
     (case invoke_pinned f ctx (dropWhile (\<lambda>c. c = CHR ''!'') v) w of
        (Inl e, w') \<Rightarrow> (Inl e, w')
      | (Inr None, w') \<Rightarrow> collect_variants get_hash f ctx vs st w'
      | (Inr (Some component), w') \<Rightarrow>
          collect_variants get_hash f ctx vs
            (record_component get_hash (take 1 v = ''!'') (dropWhile (\<lambda>c. c = CHR ''!'') v)
               component w' st) w')"

text \<open>\<^verbatim>\<open>prevent_contribution = has_mandatory_hashes and not mandatory_contributing_hashes\<close>.\<close>

definition prevent_contribution :: "'h resolution \<Rightarrow> bool" where
  "prevent_contribution st =
     (has_mandatory_hashes st \<and> mandatory_contributing_hashes st = [])"

text \<open>The hint of the first branch of the second loop, as the source formats it.\<close>

definition not_used_hint :: "('h, string) dict \<Rightarrow> string" where
  "not_used_hint mch =
     ''ignored because ''
       @ (if length mch = 1 then hd (dict_values mch) else ''other mandatory'')
       @ '' variant is not used''"

definition hash_matches_hint :: "string \<Rightarrow> string" where
  "hash_matches_hint duplicate_of = ''ignored because hash matches '' @ duplicate_of @ '' variant''"

text \<open>
  The second loop, \<^verbatim>\<open>for variant in optional_contributing_variants\<close>. \<^verbatim>\<open>rv\<close> is only
  read; the object it holds for the variant is updated in place, so the change shows
  under every name and for every holder of that object. The hash is the one the object
  has when the loop reaches it.
\<close>

fun suppress_variants ::
  "('c Component \<Rightarrow> 'h) \<Rightarrow> bool \<Rightarrow> ('h, string) dict \<Rightarrow> string list \<Rightarrow>
   (string, nat) dict \<Rightarrow> ('c, 'w) world \<Rightarrow> (error + unit) \<times> ('c, 'w) world" where
  "suppress_variants get_hash prevent mch [] out w = (Inr (), w)"
| "suppress_variants get_hash prevent mch (variant # vs) out w =
     (case dict_get out variant of
        None \<Rightarrow> (Inl (KeyError variant), w)
      | Some component \<Rightarrow>
          if prevent then
            suppress_variants get_hash prevent mch vs out
              (update_component w component False (not_used_hint mch))
          else
            (case dict_get mch (get_hash (components w component)) of
               None \<Rightarrow> suppress_variants get_hash prevent mch vs out w
             | Some duplicate_of \<Rightarrow>
                 suppress_variants get_hash prevent mch vs out
                   (update_component w component False (hash_matches_hint duplicate_of))))"

text \<open>The dictionary that is returned: every entry of \<^verbatim>\<open>rv\<close> is a component.\<close>

definition returned :: "(string, nat) dict \<Rightarrow> variants" where
  "returned d = map (\<lambda>kv. (fst kv, Some (snd kv))) d"

definition call_with_variants ::
  "('c Component \<Rightarrow> 'h) \<Rightarrow> ('c, 'w) wrapped \<Rightarrow> string list \<Rightarrow> GroupingContext \<Rightarrow>
   ('c, 'w) world \<Rightarrow> (error + variants option) \<times> ('c, 'w) world" where
  "call_with_variants get_hash f variants ctx w =
     (case getitem ctx ''variant'' of
        Inl e \<Rightarrow> (Inl e, w)
      | Inr PyNone \<Rightarrow>
          (case collect_variants get_hash f ctx variants initial_resolution w of
             (Inl e, w') \<Rightarrow> (Inl e, w')
           | (Inr st, w') \<Rightarrow>
               (case suppress_variants get_hash (prevent_contribution st)
                       (mandatory_contributing_hashes st) (optional_contributing_variants st)
                       (rv st) w' of
                  (Inl e, w'') \<Rightarrow> (Inl e, w'')
                | (Inr u, w'') \<Rightarrow> (Inr (Some (returned (rv st))), w'')))
      | Inr (PyStr pinned) \<Rightarrow>
          if pinned \<in> set variants \<or> (CHR ''!'' # pinned) \<in> set variants then f ctx w
          else (Inl AssertionError, w)
      | Inr _ \<Rightarrow> (Inl TypeError, w))"

text \<open>\<^verbatim>\<open>produces_variants(variants)(f)\<close> is \<^verbatim>\<open>inner\<close>, which calls \<^verbatim>\<open>call_with_variants\<close>.\<close>

definition produces_variants ::
  "('c Component \<Rightarrow> 'h) \<Rightarrow> string list \<Rightarrow> ('c, 'w) wrapped \<Rightarrow> ('c, 'w) wrapped" where
  "produces_variants get_hash variants f = (\<lambda>ctx w. call_with_variants get_hash f variants ctx w)"

section \<open>Strategies\<close>

text \<open>
  An event is read through \<^verbatim>\<open>event.interfaces.get(path)\<close> only, which answers \<^verbatim>\<open>None\<close>
  for an interface the event does not have.
\<close>

record 'i Event =
  event_interfaces :: "string \<Rightarrow> 'i option"

text \<open>
  The class \<^verbatim>\<open>Strategy\<close>. The attribute \<^verbatim>\<open>id\<close> is \<open>strategy_id\<close> here. The wrapped
  function receives the resolved interfaces, the event and the context; the keyword
  \<^verbatim>\<open>strategy=self\<close> that \<^verbatim>\<open>_invoke\<close> adds is no argument of \<open>func\<close>, since a field of
  a record cannot take the record itself.
\<close>

record ('i, 'c, 'w) Strategy =
  strategy_id :: string
  strategy_class :: string
  name :: string
  interfaces :: "string list"
  score :: "int option"
  func :: "'i list \<Rightarrow> 'i Event \<Rightarrow> ('c, 'w) wrapped"
  variant_processor_func ::
    "(variants \<Rightarrow> 'i Event \<Rightarrow> GroupingContext \<Rightarrow> ('c, 'w) world \<Rightarrow>
      (error + variants) \<times> ('c, 'w) world) option"

text \<open>\<^verbatim>\<open>Strategy.__init__\<close>: \<^verbatim>\<open>id.split(":", 1)[0]\<close> is the text before the first colon.\<close>

definition Strategy_init ::
  "string \<Rightarrow> string \<Rightarrow> string list \<Rightarrow> int option \<Rightarrow> ('i list \<Rightarrow> 'i Event \<Rightarrow> ('c, 'w) wrapped) \<Rightarrow>
   ('i, 'c, 'w) Strategy" where
  "Strategy_init sid nm ifaces sc f =
     \<lparr>strategy_id = sid, strategy_class = takeWhile (\<lambda>c. c \<noteq> CHR '':'') sid, name = nm,
      interfaces = ifaces, score = sc, func = f, variant_processor_func = None\<rparr>"

text \<open>The loop of \<^verbatim>\<open>get_grouping_component\<close> that gathers the interfaces.\<close>

fun collect_interfaces :: "'i Event \<Rightarrow> string list \<Rightarrow> 'i list \<Rightarrow> 'i list option" where
  "collect_interfaces event [] args = Some args"
| "collect_interfaces event (iface_path # paths) args =
     (case event_interfaces event iface_path of
        None \<Rightarrow> None
      | Some iface \<Rightarrow> collect_interfaces event paths (args @ [iface]))"

definition get_grouping_component ::
  "('i, 'c, 'w) Strategy \<Rightarrow> 'i Event \<Rightarrow> GroupingContext \<Rightarrow> string option \<Rightarrow> ('c, 'w) world \<Rightarrow>
   (error + variants option) \<times> ('c, 'w) world" where
  "get_grouping_component strategy event ctx variant w =
     (case collect_interfaces event (interfaces strategy) [] of
        None \<Rightarrow> (Inr None, w)
      | Some args \<Rightarrow>
          (case (case variant of
                   None \<Rightarrow> Inr (push ctx)
                 | Some v \<Rightarrow> setitem (push ctx) ''variant'' (PyStr v)) of
             Inl e \<Rightarrow> (Inl e, w)
           | Inr ctx' \<Rightarrow> func strategy args event ctx' w))"

definition get_grouping_component_variants ::
  "('i, 'c, 'w) Strategy \<Rightarrow> 'i Event \<Rightarrow> GroupingContext \<Rightarrow> ('c, 'w) world \<Rightarrow>
   (error + variants) \<times> ('c, 'w) world" where
  "get_grouping_component_variants strategy event ctx w =
     (case get_grouping_component strategy event ctx None w of
        (Inl e, w') \<Rightarrow> (Inl e, w')
      | (Inr None, w') \<Rightarrow> (Inr [], w')
      | (Inr (Some variants), w') \<Rightarrow>
          (case variant_processor_func strategy of
             None \<Rightarrow> (Inr variants, w')
           | Some processor \<Rightarrow> processor variants event ctx w'))"

section \<open>The registry\<close>

text \<open>
  The global \<^verbatim>\<open>STRATEGIES\<close> is a parameter \<open>reg\<close> of every function that reads it.
  \<open>register\<close> is the loop of the decorator \<^verbatim>\<open>strategy\<close>, which stores for each id a
  strategy built by \<^verbatim>\<open>Strategy.__init__\<close> from that id; the checks the decorator makes
  on its arguments before the loop are left out.
\<close>

definition register ::
  "string list \<Rightarrow> string \<Rightarrow> string list \<Rightarrow> int option \<Rightarrow> ('i list \<Rightarrow> 'i Event \<Rightarrow> ('c, 'w) wrapped) \<Rightarrow>
   (string, ('i, 'c, 'w) Strategy) dict \<Rightarrow> (string, ('i, 'c, 'w) Strategy) dict" where
  "register ids nm ifaces sc f reg =
     foldl (\<lambda>r sid. dict_set r sid (Strategy_init sid nm ifaces sc f)) reg ids"

definition lookup_strategy ::
  "(string, ('i, 'c, 'w) Strategy) dict \<Rightarrow> string \<Rightarrow> error + ('i, 'c, 'w) Strategy" where
  "lookup_strategy reg sid =
     (case dict_get reg sid of None \<Rightarrow> Inl (LookupError sid) | Some s \<Rightarrow> Inr s)"

section \<open>Strategy configurations\<close>

text \<open>
  A configuration class holds three dictionaries. They are objects: \<^verbatim>\<open>dict(...)\<close> and
  \<^verbatim>\<open>{}\<close> make a new one, an assignment \<^verbatim>\<open>d[k] = v\<close> changes the one it is applied to. The
  store keeps the dictionary objects, an address is an index into it, and a configuration
  holds the addresses of its dictionaries. The strategies and context values inside a
  dictionary are shared, as in a shallow copy, and are values here.
\<close>

record ('i, 'c, 'w) store =
  strategy_dicts :: "(string, ('i, 'c, 'w) Strategy) dict list"
  context_dicts :: "(string, pyvalue) dict list"

datatype StrategyConfiguration =
  StrategyConfiguration
    (config_id: string)
    (base: "StrategyConfiguration option")
    (strategies: nat)
    (delegates: nat)
    (initial_context: nat)
    (risk: int)
    (hidden: bool)
    (changelog: string)

definition RISK_LEVEL_LOW :: int where
  "RISK_LEVEL_LOW = 0"

definition new_strategy_dict ::
  "('i, 'c, 'w) store \<Rightarrow> (string, ('i, 'c, 'w) Strategy) dict \<Rightarrow> nat \<times> ('i, 'c, 'w) store" where
  "new_strategy_dict h d =
     (length (strategy_dicts h), h\<lparr>strategy_dicts := strategy_dicts h @ [d]\<rparr>)"

definition new_context_dict ::
  "('i, 'c, 'w) store \<Rightarrow> (string, pyvalue) dict \<Rightarrow> nat \<times> ('i, 'c, 'w) store" where
  "new_context_dict h d =
     (length (context_dicts h), h\<lparr>context_dicts := context_dicts h @ [d]\<rparr>)"

definition set_strategy_dict ::
  "('i, 'c, 'w) store \<Rightarrow> nat \<Rightarrow> (string, ('i, 'c, 'w) Strategy) dict \<Rightarrow> ('i, 'c, 'w) store" where
  "set_strategy_dict h a d = h\<lparr>strategy_dicts := (strategy_dicts h)[a := d]\<rparr>"

definition set_context_dict ::
  "('i, 'c, 'w) store \<Rightarrow> nat \<Rightarrow> (string, pyvalue) dict \<Rightarrow> ('i, 'c, 'w) store" where
  "set_context_dict h a d = h\<lparr>context_dicts := (context_dicts h)[a := d]\<rparr>"

text \<open>What a configuration holds, read through the store.\<close>

definition strategies_of ::
  "('i, 'c, 'w) store \<Rightarrow> StrategyConfiguration \<Rightarrow> (string, ('i, 'c, 'w) Strategy) dict" where
  "strategies_of h cfg = strategy_dicts h ! strategies cfg"

definition delegates_of ::
  "('i, 'c, 'w) store \<Rightarrow> StrategyConfiguration \<Rightarrow> (string, ('i, 'c, 'w) Strategy) dict" where
  "delegates_of h cfg = strategy_dicts h ! delegates cfg"

definition initial_context_of ::
  "('i, 'c, 'w) store \<Rightarrow> StrategyConfiguration \<Rightarrow> (string, pyvalue) dict" where
  "initial_context_of h cfg = context_dicts h ! initial_context cfg"

text \<open>\<^verbatim>\<open>x or []\<close> for an argument that defaults to \<^verbatim>\<open>None\<close>.\<close>

definition or_empty :: "'a list option \<Rightarrow> 'a list" where
  "or_empty x = (case x of None \<Rightarrow> [] | Some xs \<Rightarrow> xs)"

text \<open>\<^verbatim>\<open>by_class.setdefault(strategy.strategy_class, []).append(strategy.id)\<close>.\<close>

definition by_class_add ::
  "(string, string list) dict \<Rightarrow> ('i, 'c, 'w) Strategy \<Rightarrow> (string, string list) dict" where
  "by_class_add by_class s =
     dict_set by_class (strategy_class s)
       (or_empty (dict_get by_class (strategy_class s)) @ [strategy_id s])"

definition by_class_of ::
  "(string, ('i, 'c, 'w) Strategy) dict \<Rightarrow> (string, string list) dict" where
  "by_class_of d = foldl by_class_add [] (dict_values d)"

text \<open>
  The loop \<^verbatim>\<open>for strategy_id in strategies or {}\<close>, on the dictionary it changes.
  \<open>by_class\<close> was filled before the loop and the loop does not change it.
\<close>

fun add_strategies ::
  "(string, ('i, 'c, 'w) Strategy) dict \<Rightarrow> string \<Rightarrow> (string, string list) dict \<Rightarrow> string list \<Rightarrow>
   (string, ('i, 'c, 'w) Strategy) dict \<Rightarrow> error + (string, ('i, 'c, 'w) Strategy) dict" where
  "add_strategies reg cid by_class [] d = Inr d"
| "add_strategies reg cid by_class (sid # sids) d =
     (case lookup_strategy reg sid of
        Inl e \<Rightarrow> Inl e
      | Inr s \<Rightarrow>
          (case score s of
             None \<Rightarrow> Inl (RuntimeError_unscored sid cid)
           | Some _ \<Rightarrow>
               add_strategies reg cid by_class sids
                 (dict_set
                    (foldl dict_pop d (or_empty (dict_get by_class (strategy_class s))))
                    sid s)))"

text \<open>The inner loop \<^verbatim>\<open>for interface in strategy.interfaces\<close> of the delegates.\<close>

fun add_interfaces ::
  "string \<Rightarrow> ('i, 'c, 'w) Strategy \<Rightarrow> string list \<Rightarrow>
   (string, ('i, 'c, 'w) Strategy) dict \<times> string set \<Rightarrow>
   error + (string, ('i, 'c, 'w) Strategy) dict \<times> string set" where
  "add_interfaces cid s [] st = Inr st"
| "add_interfaces cid s (interface # rest) st =
     (if interface \<in> snd st then Inl (RuntimeError_duplicate cid interface)
      else add_interfaces cid s rest (dict_set (fst st) interface s, insert interface (snd st)))"

text \<open>The loop \<^verbatim>\<open>for strategy_id in delegates or ()\<close>; the state is the dictionary of
  delegates and the set \<^verbatim>\<open>new_delegates\<close>.\<close>

fun add_delegates ::
  "(string, ('i, 'c, 'w) Strategy) dict \<Rightarrow> string \<Rightarrow> string list \<Rightarrow>
   (string, ('i, 'c, 'w) Strategy) dict \<times> string set \<Rightarrow>
   error + (string, ('i, 'c, 'w) Strategy) dict \<times> string set" where
  "add_delegates reg cid [] st = Inr st"
| "add_delegates reg cid (sid # sids) st =
     (case lookup_strategy reg sid of
        Inl e \<Rightarrow> Inl e
      | Inr s \<Rightarrow>
          (case add_interfaces cid s (interfaces s) st of
             Inl e \<Rightarrow> Inl e
           | Inr st' \<Rightarrow> add_delegates reg cid sids st'))"

text \<open>
  \<^verbatim>\<open>create_strategy_configuration\<close>. The arguments follow the source's order, after the
  registry and \<^verbatim>\<open>inspect.cleandoc\<close>, a library function that is a parameter here. The
  three dictionaries of the new class are new objects, filled from the base's; the loops
  then change the new objects only. When a loop raises, the class is abandoned and its
  dictionaries are unreachable: the store returned with the error keeps them as they
  were before that loop.
\<close>

definition create_strategy_configuration ::
  "(string, ('i, 'c, 'w) Strategy) dict \<Rightarrow> (string \<Rightarrow> string) \<Rightarrow>
   string \<Rightarrow> string list option \<Rightarrow> string list option \<Rightarrow> string option \<Rightarrow> bool \<Rightarrow>
   StrategyConfiguration option \<Rightarrow> int option \<Rightarrow> (string, pyvalue) dict option \<Rightarrow>
   ('i, 'c, 'w) store \<Rightarrow> (error + StrategyConfiguration) \<times> ('i, 'c, 'w) store" where
  "create_strategy_configuration reg cleandoc cid strategy_ids delegate_ids chlog hid bs rsk
     init_ctx h =
     (let (a_strategies, h1) =
            new_strategy_dict h (case bs of None \<Rightarrow> [] | Some b \<Rightarrow> strategies_of h b);
          (a_delegates, h2) =
            new_strategy_dict h1 (case bs of None \<Rightarrow> [] | Some b \<Rightarrow> delegates_of h1 b);
          (a_context, h3) =
            new_context_dict h2 (case bs of None \<Rightarrow> [] | Some b \<Rightarrow> initial_context_of h2 b);
          rsk' = (case rsk of None \<Rightarrow> RISK_LEVEL_LOW | Some r \<Rightarrow> r);
          by_class = by_class_of (strategy_dicts h3 ! a_strategies)
      in case add_strategies reg cid by_class (or_empty strategy_ids)
                (strategy_dicts h3 ! a_strategies) of
           Inl e \<Rightarrow> (Inl e, h3)
         | Inr d_strategies \<Rightarrow>
             (let h4 = set_strategy_dict h3 a_strategies d_strategies
              in case add_delegates reg cid (or_empty delegate_ids)
                        (strategy_dicts h4 ! a_delegates, {}) of
                   Inl e \<Rightarrow> (Inl e, h4)
                 | Inr (d_delegates, new_delegates) \<Rightarrow>
                     (let h5 = set_strategy_dict h4 a_delegates d_delegates;
                          h6 = (if or_empty init_ctx \<noteq> [] then
                                  set_context_dict h5 a_context
                                    (dict_update (context_dicts h5 ! a_context) (or_empty init_ctx))
                                else h5)
                      in (Inr (StrategyConfiguration cid bs a_strategies a_delegates a_context
                                 rsk' hid (cleandoc (or_empty chlog))), h6))))"

section \<open>Example inputs\<close>

text \<open>
  A world for the examples, in which no component contributes and the call counter
  \<open>outside\<close> is 0, and two wrapped functions that count their calls. The first answers
  the pinned variant \<^verbatim>\<open>system\<close> with \<^verbatim>\<open>None\<close> or with the given component, which it puts
  at address 0, and every other pinned variant with a contributing component at address
  1 whose values, and hash, are \<^verbatim>\<open>h1\<close>. The second answers every pinned variant with
  one and the same object, at address 0.
\<close>

definition blank_world :: "(string, nat) world" where
  "blank_world =
     \<lparr>components = (\<lambda>a. \<lparr>contributes = False, hint = None, component_values = []\<rparr>),
      outside = 0\<rparr>"

definition variant_function :: "string Component option \<Rightarrow> (string, nat) wrapped" where
  "variant_function system_component ctx w =
     (case getitem ctx ''variant'' of
        Inr (PyStr v) \<Rightarrow>
          (if v = ''system'' then
             (case system_component of
                None \<Rightarrow> (Inr (Some [(''system'', None)]), w\<lparr>outside := Suc (outside w)\<rparr>)
              | Some c \<Rightarrow>
                  (Inr (Some [(''system'', Some 0)]),
                   w\<lparr>components := (components w)(0 := c), outside := Suc (outside w)\<rparr>))
           else
             (Inr (Some [(v, Some 1)]),
              w\<lparr>components := (components w)
                    (1 := \<lparr>contributes = True, hint = None, component_values = ''h1''\<rparr>),
                outside := Suc (outside w)\<rparr>))
      | _ \<Rightarrow> (Inl TypeError, w))"

definition shared_function :: "(string, nat) wrapped" where
  "shared_function ctx w =
     (case getitem ctx ''variant'' of
        Inr (PyStr v) \<Rightarrow>
          (Inr (Some [(v, Some 0)]),
           w\<lparr>components := (components w)
                 (0 := \<lparr>contributes = True, hint = None, component_values = ''h1''\<rparr>),
             outside := Suc (outside w)\<rparr>)
      | _ \<Rightarrow> (Inl TypeError, w))"

text \<open>
  Strategies for the examples, registered as the decorator \<^verbatim>\<open>strategy\<close> does: three
  scored strategies of the class \<^verbatim>\<open>frame\<close> and two unscored ones that both declare the
  interface \<^verbatim>\<open>exception\<close>. Their function returns \<^verbatim>\<open>None\<close> and counts its calls.
\<close>

definition no_result :: "unit list \<Rightarrow> unit Event \<Rightarrow> (string, nat) wrapped" where
  "no_result args event ctx w = (Inr None, w\<lparr>outside := Suc (outside w)\<rparr>)"

definition example_registry :: "(string, (unit, string, nat) Strategy) dict" where
  "example_registry =
     register [''exception:v1'', ''exception:v2''] ''exception'' [''exception''] None no_result
       (register [''frame:v1'', ''frame:v2'', ''frame:v3''] ''frame'' [''frame''] (Some 10) no_result [])"

definition empty_store :: "(unit, string, nat) store" where
  "empty_store = \<lparr>strategy_dicts = [], context_dicts = []\<rparr>"

definition threads_strategy :: "(unit, string, nat) Strategy" where
  "threads_strategy =
     Strategy_init ''threads:v1'' ''threads'' [''exception'', ''threads''] (Some 5) no_result"

definition exception_event :: "unit Event" where
  "exception_event = \<lparr>event_interfaces = (\<lambda>p. if p = ''exception'' then Some () else None)\<rparr>"

text \<open>
  The configuration \<^verbatim>\<open>base\<close>, built in the empty store from \<^verbatim>\<open>frame:v1\<close> and the
  delegate \<^verbatim>\<open>exception:v1\<close>, and the configuration \<^verbatim>\<open>derived\<close>, built on it from
  \<^verbatim>\<open>frame:v2\<close>, the delegate \<^verbatim>\<open>exception:v2\<close> and one context entry.
\<close>

definition base_configuration :: StrategyConfiguration where
  "base_configuration = StrategyConfiguration ''base'' None 0 1 0 0 False []"

definition base_store :: "(unit, string, nat) store" where
  "base_store =
     \<lparr>strategy_dicts =
        [[(''frame:v1'', Strategy_init ''frame:v1'' ''frame'' [''frame''] (Some 10) no_result)],
         [(''exception'', Strategy_init ''exception:v1'' ''exception'' [''exception''] None no_result)]],
      context_dicts = [[]]\<rparr>"

definition derived_configuration :: StrategyConfiguration where
  "derived_configuration =
     StrategyConfiguration ''derived'' (Some base_configuration) 2 3 1 0 False []"

definition derived_store :: "(unit, string, nat) store" where
  "derived_store =
     \<lparr>strategy_dicts =
        [[(''frame:v1'', Strategy_init ''frame:v1'' ''frame'' [''frame''] (Some 10) no_result)],
         [(''exception'', Strategy_init ''exception:v1'' ''exception'' [''exception''] None no_result)],
         [(''frame:v2'', Strategy_init ''frame:v2'' ''frame'' [''frame''] (Some 10) no_result)],
         [(''exception'', Strategy_init ''exception:v2'' ''exception'' [''exception''] None no_result)]],
      context_dicts = [[], [(''k'', PyInt 1)]]\<rparr>"

text \<open>
  A wider registry, with a scored strategy of the class \<^verbatim>\<open>message\<close> and a delegate for
  the interface \<^verbatim>\<open>stacktrace\<close>; a base that has strategies of two classes, delegates
  for two interfaces and one context entry; and the configuration built on it from
  \<^verbatim>\<open>frame:v2\<close>, the delegate \<^verbatim>\<open>exception:v2\<close> and a second context entry.
\<close>

definition wide_registry :: "(string, (unit, string, nat) Strategy) dict" where
  "wide_registry =
     register [''stacktrace:v1''] ''stacktrace'' [''stacktrace''] None no_result
       (register [''message:v1''] ''message'' [''message''] (Some 5) no_result example_registry)"

definition wide_base_configuration :: StrategyConfiguration where
  "wide_base_configuration = StrategyConfiguration ''base'' None 0 1 0 0 False []"

definition wide_base_store :: "(unit, string, nat) store" where
  "wide_base_store =
     \<lparr>strategy_dicts =
        [[(''frame:v1'', Strategy_init ''frame:v1'' ''frame'' [''frame''] (Some 10) no_result),
          (''message:v1'', Strategy_init ''message:v1'' ''message'' [''message''] (Some 5) no_result)],
         [(''exception'', Strategy_init ''exception:v1'' ''exception'' [''exception''] None no_result),
          (''stacktrace'',
           Strategy_init ''stacktrace:v1'' ''stacktrace'' [''stacktrace''] None no_result)]],
      context_dicts = [[(''depth'', PyInt 1)]]\<rparr>"

definition wide_derived_configuration :: StrategyConfiguration where
  "wide_derived_configuration =
     StrategyConfiguration ''derived'' (Some wide_base_configuration) 2 3 1 0 False []"

definition wide_derived_store :: "(unit, string, nat) store" where
  "wide_derived_store =
     \<lparr>strategy_dicts =
        [[(''frame:v1'', Strategy_init ''frame:v1'' ''frame'' [''frame''] (Some 10) no_result),
          (''message:v1'', Strategy_init ''message:v1'' ''message'' [''message''] (Some 5) no_result)],
         [(''exception'', Strategy_init ''exception:v1'' ''exception'' [''exception''] None no_result),
          (''stacktrace'',
           Strategy_init ''stacktrace:v1'' ''stacktrace'' [''stacktrace''] None no_result)],
         [(''message:v1'', Strategy_init ''message:v1'' ''message'' [''message''] (Some 5) no_result),
          (''frame:v2'', Strategy_init ''frame:v2'' ''frame'' [''frame''] (Some 10) no_result)],
         [(''exception'', Strategy_init ''exception:v2'' ''exception'' [''exception''] None no_result),
          (''stacktrace'',
           Strategy_init ''stacktrace:v1'' ''stacktrace'' [''stacktrace''] None no_result)]],
      context_dicts = [[(''depth'', PyInt 1)], [(''depth'', PyInt 1), (''k'', PyInt 1)]]\<rparr>"

section \<open>Notions used to state the properties\<close>

text \<open>
  A configuration is valid in a store when its three addresses are allocated there. The
  interfaces requested by a list of delegate ids are the interfaces of the registered
  strategies among them, in the order the two loops visit them.
\<close>

definition valid_configuration :: "('i, 'c, 'w) store \<Rightarrow> StrategyConfiguration \<Rightarrow> bool" where
  "valid_configuration h cfg =
     (strategies cfg < length (strategy_dicts h) \<and> delegates cfg < length (strategy_dicts h) \<and>
      initial_context cfg < length (context_dicts h))"

definition requested_interfaces ::
  "(string, ('i, 'c, 'w) Strategy) dict \<Rightarrow> string list \<Rightarrow> string list" where
  "requested_interfaces reg sids =
     concat (map (\<lambda>sid. case dict_get reg sid of None \<Rightarrow> [] | Some s \<Rightarrow> interfaces s) sids)"

text \<open>
  The class of an id is what \<^verbatim>\<open>Strategy.__init__\<close> derives from it. A dictionary of
  strategies is well formed when every strategy is stored under its own id and has the
  class of that id, as the registry filled by the decorator and every dictionary filled
  from it are. The requested ids are registered well when this holds for those of them
  the registry knows.
\<close>

definition class_of :: "string \<Rightarrow> string" where
  "class_of sid = takeWhile (\<lambda>c. c \<noteq> CHR '':'') sid"

definition well_formed ::
  "(string, ('i, 'c, 'w) Strategy) dict \<Rightarrow> bool" where
  "well_formed d =
     (distinct (map fst d) \<and>
      list_all (\<lambda>kv. strategy_id (snd kv) = fst kv \<and> strategy_class (snd kv) = class_of (fst kv)) d)"

definition registered ::
  "(string, ('i, 'c, 'w) Strategy) dict \<Rightarrow> string list \<Rightarrow> bool" where
  "registered reg sids =
     list_all (\<lambda>sid. case dict_get reg sid of
                       None \<Rightarrow> True
                     | Some s \<Rightarrow> strategy_id s = sid \<and> strategy_class s = class_of sid) sids"

section \<open>Facts about dictionaries and the context\<close>

lemma dict_get_in_keys: "k \<in> fst ` set d \<Longrightarrow> \<exists>v. dict_get d k = Some v"
  unfolding dict_get_def by (metis domD dom_map_of_conv_image_fst)

lemma keys_dict_set: "fst ` set (dict_set d k v) = insert k (fst ` set d)"
  by (simp add: dict_set_def dom_update)

lemma distinct_dict_set: "distinct (map fst d) \<Longrightarrow> distinct (map fst (dict_set d k v))"
  by (simp add: dict_set_def distinct_update)

lemma set_dict_set_subset: "set (dict_set d k v) \<subseteq> insert (k, v) (set d)"
  unfolding dict_set_def by (induction d) auto

lemma rv_record_component:
  "rv (record_component get_hash m v a w st) = dict_set (rv st) v a"
  by (simp add: record_component_def Let_def)

lemma optional_record_component:
  "set (optional_contributing_variants (record_component get_hash m v a w st))
     \<subseteq> insert v (set (optional_contributing_variants st))"
  by (auto simp: record_component_def Let_def)

lemma record_component_not_mandatory:
  "has_mandatory_hashes (record_component get_hash False v a w st) = has_mandatory_hashes st \<and>
   mandatory_contributing_hashes (record_component get_hash False v a w st) =
     mandatory_contributing_hashes st"
  by (simp add: record_component_def Let_def)

lemma collect_variants_keys:
  "collect_variants get_hash f ctx vs st w = (Inr st', w') \<Longrightarrow>
   set (optional_contributing_variants st) \<subseteq> fst ` set (rv st) \<Longrightarrow>
   set (optional_contributing_variants st') \<subseteq> fst ` set (rv st')"
proof (induction vs arbitrary: st w)
  case Nil
  then show ?case by simp
next
  case (Cons v vs)
  let ?n = "dropWhile (\<lambda>c. c = CHR ''!'') v"
  obtain r w1 where inv: "invoke_pinned f ctx ?n w = (r, w1)" by force
  show ?case
  proof (cases r)
    case (Inl e)
    with Cons.prems(1) inv show ?thesis by simp
  next
    case (Inr oc)
    show ?thesis
    proof (cases oc)
      case None
      with Cons inv Inr show ?thesis by simp
    next
      case (Some a)
      let ?st = "record_component get_hash (take 1 v = ''!'') ?n a w1 st"
      have step: "collect_variants get_hash f ctx vs ?st w1 = (Inr st', w')"
        using Cons.prems(1) inv Inr Some by simp
      have "set (optional_contributing_variants ?st) \<subseteq> fst ` set (rv ?st)"
        using optional_record_component [of get_hash "take 1 v = ''!''" ?n a w1 st] Cons.prems(2)
        by (auto simp: rv_record_component keys_dict_set)
      then show ?thesis using Cons.IH [OF step] by blast
    qed
  qed
qed

lemma collect_variants_provenance:
  "collect_variants get_hash f ctx vs st w = (Inr st', w') \<Longrightarrow>
   (\<And>kv. kv \<in> set (rv st) \<Longrightarrow> \<exists>w0 w1. invoke_pinned f ctx (fst kv) w0 = (Inr (Some (snd kv)), w1)) \<Longrightarrow>
   kv \<in> set (rv st') \<Longrightarrow> \<exists>w0 w1. invoke_pinned f ctx (fst kv) w0 = (Inr (Some (snd kv)), w1)"
proof (induction vs arbitrary: st w)
  case Nil
  then show ?case by simp
next
  case (Cons v vs)
  let ?n = "dropWhile (\<lambda>c. c = CHR ''!'') v"
  obtain r w1 where inv: "invoke_pinned f ctx ?n w = (r, w1)" by force
  show ?case
  proof (cases r)
    case (Inl e)
    with Cons.prems(1) inv show ?thesis by simp
  next
    case (Inr oc)
    show ?thesis
    proof (cases oc)
      case None
      with Cons inv Inr show ?thesis by simp
    next
      case (Some a)
      let ?st = "record_component get_hash (take 1 v = ''!'') ?n a w1 st"
      have step: "collect_variants get_hash f ctx vs ?st w1 = (Inr st', w')"
        using Cons.prems(1) inv Inr Some by simp
      have "\<exists>w0 w1. invoke_pinned f ctx (fst p) w0 = (Inr (Some (snd p)), w1)"
        if "p \<in> set (rv ?st)" for p
      proof -
        from that have "p = (?n, a) \<or> p \<in> set (rv st)"
          using set_dict_set_subset [of "rv st" ?n a] by (auto simp: rv_record_component)
        then show ?thesis
        proof
          assume "p = (?n, a)"
          then show ?thesis using inv Inr Some by auto
        next
          assume "p \<in> set (rv st)"
          then show ?thesis by (rule Cons.prems(2))
        qed
      qed
      then show ?thesis using Cons.IH [OF step _ Cons.prems(3)] by blast
    qed
  qed
qed

lemma collect_variants_no_mandatory:
  "collect_variants get_hash f ctx vs st w = (Inr st', w') \<Longrightarrow>
   \<forall>v\<in>set vs. take 1 v \<noteq> ''!'' \<Longrightarrow>
   has_mandatory_hashes st' = has_mandatory_hashes st \<and>
   mandatory_contributing_hashes st' = mandatory_contributing_hashes st"
proof (induction vs arbitrary: st w)
  case Nil
  then show ?case by simp
next
  case (Cons v vs)
  let ?n = "dropWhile (\<lambda>c. c = CHR ''!'') v"
  obtain r w1 where inv: "invoke_pinned f ctx ?n w = (r, w1)" by force
  have nv: "take 1 v \<noteq> ''!''" and nvs: "\<forall>v\<in>set vs. take 1 v \<noteq> ''!''"
    using Cons.prems(2) by auto
  show ?case
  proof (cases r)
    case (Inl e)
    with Cons.prems(1) inv show ?thesis by simp
  next
    case (Inr oc)
    show ?thesis
    proof (cases oc)
      case None
      with Cons.prems(1) inv Inr Cons.IH nvs show ?thesis by simp
    next
      case (Some a)
      let ?st = "record_component get_hash False ?n a w1 st"
      have step: "collect_variants get_hash f ctx vs ?st w1 = (Inr st', w')"
        using Cons.prems(1) inv Inr Some nv by simp
      show ?thesis
        using Cons.IH [OF step nvs] record_component_not_mandatory [of get_hash ?n a w1 st] by simp
    qed
  qed
qed

lemma suppress_variants_nothing:
  "set vs \<subseteq> fst ` set out \<Longrightarrow> suppress_variants get_hash False [] vs out w = (Inr (), w)"
proof (induction vs)
  case Nil
  then show ?case by simp
next
  case (Cons v vs)
  then obtain a where "dict_get out v = Some a" using dict_get_in_keys [of v out] by auto
  with Cons show ?case by (simp add: dict_get_def)
qed

lemma update_update: "update (update c b h) b h = update c b h"
  by (simp add: update_def)

text \<open>
  When the rule for an empty mandatory set is in force, the second loop updates exactly
  the objects that \<^verbatim>\<open>rv\<close> holds for the listed variants, each with the same hint.
\<close>

lemma suppress_variants_prevent:
  "set vs \<subseteq> fst ` set out \<Longrightarrow>
   suppress_variants get_hash True mch vs out w =
     (Inr (), w\<lparr>components :=
                 (\<lambda>a. if \<exists>v\<in>set vs. dict_get out v = Some a
                       then update (components w a) False (not_used_hint mch)
                       else components w a)\<rparr>)"
proof (induction vs arbitrary: w)
  case Nil
  then show ?case by simp
next
  case (Cons v vs)
  let ?h = "not_used_hint mch"
  obtain a0 where a0: "dict_get out v = Some a0"
    using dict_get_in_keys [of v out] Cons.prems by auto
  let ?w = "update_component w a0 False ?h"
  have keys: "set vs \<subseteq> fst ` set out" using Cons.prems by simp
  have "suppress_variants get_hash True mch (v # vs) out w =
        suppress_variants get_hash True mch vs out ?w"
    using a0 by simp
  also have "\<dots> = (Inr (), ?w\<lparr>components :=
                 (\<lambda>a. if \<exists>v\<in>set vs. dict_get out v = Some a
                       then update (components ?w a) False ?h
                       else components ?w a)\<rparr>)"
    by (rule Cons.IH [OF keys])
  also have "?w\<lparr>components :=
                 (\<lambda>a. if \<exists>v\<in>set vs. dict_get out v = Some a
                       then update (components ?w a) False ?h
                       else components ?w a)\<rparr> =
             w\<lparr>components :=
                 (\<lambda>a. if \<exists>v\<in>set (v # vs). dict_get out v = Some a
                       then update (components w a) False ?h
                       else components w a)\<rparr>"
    using a0 by (auto simp: update_component_def update_update fun_eq_iff)
  finally show ?case .
qed

lemma setitem_push:
  "setitem (push ctx) key v = Inr (ctx\<lparr>stack := stack ctx @ [[(key, v)]]\<rparr>)"
  by (simp add: setitem_def push_def dict_set_def)

lemma getitem_init: "getitem (GroupingContext_init ic) ''variant'' = Inr PyNone"
  by (simp add: getitem_def GroupingContext_init_def dict_get_def dict_set_def)

lemma getitem_scope:
  "getitem (ctx\<lparr>stack := stack ctx @ [[(''variant'', v)]]\<rparr>) ''variant'' = Inr v"
  by (simp add: getitem_def dict_get_def)

lemma pop_scope: "setitem (push ctx) key v = Inr ctx' \<Longrightarrow> pop ctx' = Inr ctx"
  by (auto simp: setitem_push pop_def)


section \<open>Properties of the variant resolution algorithm\<close>

lemmas variant_example_defs =
  call_with_variants_def invoke_pinned_def setitem_push variant_function_def shared_function_def
  blank_world_def getitem_scope dict_get_def dict_set_def record_component_def
  initial_resolution_def prevent_contribution_def returned_def update_component_def update_def
  hash_matches_hint_def not_used_hint_def

text \<open>
  Claim C6. When \<^verbatim>\<open>call_with_variants\<close> is entered with a variant pinned in the context:
  if the pinned name, or the pinned name behind the marker \<^verbatim>\<open>!\<close>, is one of the declared
  candidates, the call is exactly one call of the wrapped function on the unchanged
  context, and its result and world are returned as they are (no loop, no suppression);
  otherwise the assertion fails and the wrapped function is not called.
\<close>

theorem delegate_call_pinned:
  assumes "getitem ctx ''variant'' = Inr (PyStr pinned)"
  shows "(pinned \<in> set variants \<or> (CHR ''!'' # pinned) \<in> set variants \<longrightarrow>
            call_with_variants get_hash f variants ctx w = f ctx w) \<and>
         (pinned \<notin> set variants \<and> (CHR ''!'' # pinned) \<notin> set variants \<longrightarrow>
            call_with_variants get_hash f variants ctx w = (Inl AssertionError, w))"
  using assms by (simp add: call_with_variants_def)

text \<open>
  Scenario C of the specification: \<^verbatim>\<open>frames\<close> pinned against \<^verbatim>\<open>["frames", "app"]\<close> gives
  one call (the counter goes from 0 to 1) and the entry as returned; against
  \<^verbatim>\<open>["!system", "app"]\<close> the call fails without calling the function.
\<close>

theorem delegate_call_pinned_witness:
  "call_with_variants component_values (variant_function None) [''frames'', ''app'']
     \<lparr>stack = [[], [(''variant'', PyStr ''frames'')]]\<rparr> blank_world =
     variant_function None \<lparr>stack = [[], [(''variant'', PyStr ''frames'')]]\<rparr> blank_world \<and>
   fst (call_with_variants component_values (variant_function None) [''frames'', ''app'']
     \<lparr>stack = [[], [(''variant'', PyStr ''frames'')]]\<rparr> blank_world) =
     Inr (Some [(''frames'', Some 1)]) \<and>
   outside (snd (call_with_variants component_values (variant_function None) [''frames'', ''app'']
     \<lparr>stack = [[], [(''variant'', PyStr ''frames'')]]\<rparr> blank_world)) = Suc 0 \<and>
   call_with_variants component_values (variant_function None) [''!system'', ''app'']
     \<lparr>stack = [[], [(''variant'', PyStr ''frames'')]]\<rparr> blank_world = (Inl AssertionError, blank_world)"
proof -
  have pinned: "getitem \<lparr>stack = [[], [(''variant'', PyStr ''frames'')]]\<rparr> ''variant'' = Inr (PyStr ''frames'')"
    by (simp add: getitem_def dict_get_def)
  show ?thesis
    using delegate_call_pinned [OF pinned, of "[''frames'', ''app'']" component_values "variant_function None" blank_world]
      delegate_call_pinned [OF pinned, of "[''!system'', ''app'']" component_values "variant_function None" blank_world]
    by (simp add: variant_function_def pinned blank_world_def)
qed

text \<open>
  Claim C3 (scenario A), as amended. Top-level call with the candidates
  \<^verbatim>\<open>["!system", "app"]\<close>: when both candidates produce contributing components with the
  same hash, the object returned for \<^verbatim>\<open>app\<close> is updated in place to non-contributing
  with the hint \<^verbatim>\<open>ignored because hash matches system variant\<close>, no other object is
  touched, and both entries are returned. The \<^verbatim>\<open>system\<close> component is therefore
  unchanged when it is another object than the \<^verbatim>\<open>app\<close> component.
\<close>

theorem scenario_A_hash_match:
  assumes top: "getitem ctx ''variant'' = Inr PyNone"
    and ctx_system: "setitem (push ctx) ''variant'' (PyStr ''system'') = Inr ctx_system"
    and ctx_app: "setitem (push ctx) ''variant'' (PyStr ''app'') = Inr ctx_app"
    and sys: "f ctx_system w = (Inr (Some [(''system'', Some a_system)]), w1)"
    and app: "f ctx_app w1 = (Inr (Some [(''app'', Some a_app)]), w2)"
    and contributing: "contributes (components w1 a_system)" "contributes (components w2 a_app)"
    and same_hash: "get_hash (components w1 a_system) = get_hash (components w2 a_app)"
  shows "call_with_variants get_hash f [''!system'', ''app''] ctx w =
           (Inr (Some [(''system'', Some a_system), (''app'', Some a_app)]),
            update_component w2 a_app False ''ignored because hash matches system variant'') \<and>
         components (update_component w2 a_app False ''ignored because hash matches system variant'')
             a_app =
           (components w2 a_app)\<lparr>contributes := False,
              hint := Some ''ignored because hash matches system variant''\<rparr> \<and>
         (a_system \<noteq> a_app \<longrightarrow>
            components (update_component w2 a_app False ''ignored because hash matches system variant'')
              a_system = components w2 a_system)"
proof -
  have i1: "invoke_pinned f ctx ''system'' w = (Inr (Some a_system), w1)"
    by (simp add: invoke_pinned_def ctx_system sys dict_get_def)
  have i2: "invoke_pinned f ctx ''app'' w1 = (Inr (Some a_app), w2)"
    by (simp add: invoke_pinned_def ctx_app app dict_get_def)
  have c: "collect_variants get_hash f ctx [''!system'', ''app''] initial_resolution w =
      (Inr \<lparr>rv = [(''system'', a_system), (''app'', a_app)], has_mandatory_hashes = True,
            mandatory_contributing_hashes = [(get_hash (components w1 a_system), ''system'')],
            optional_contributing_variants = [''app'']\<rparr>, w2)"
    by (simp add: i1 i2 record_component_def initial_resolution_def contributing dict_set_def)
  have "call_with_variants get_hash f [''!system'', ''app''] ctx w =
           (Inr (Some [(''system'', Some a_system), (''app'', Some a_app)]),
            update_component w2 a_app False ''ignored because hash matches system variant'')"
    by (simp add: call_with_variants_def top c prevent_contribution_def dict_get_def
        same_hash hash_matches_hint_def returned_def del: collect_variants.simps)
  then show ?thesis by (simp add: update_component_def update_def)
qed

text \<open>Two objects, at the addresses 0 and 1: the one at 1 is updated, the one at 0 is not.\<close>

theorem scenario_A_hash_match_witness:
  "fst (call_with_variants component_values
     (variant_function (Some \<lparr>contributes = True, hint = None, component_values = ''h1''\<rparr>))
     [''!system'', ''app''] (GroupingContext_init []) blank_world) =
     Inr (Some [(''system'', Some 0), (''app'', Some 1)]) \<and>
   components (snd (call_with_variants component_values
     (variant_function (Some \<lparr>contributes = True, hint = None, component_values = ''h1''\<rparr>))
     [''!system'', ''app''] (GroupingContext_init []) blank_world)) 1 =
     \<lparr>contributes = False, hint = Some ''ignored because hash matches system variant'',
      component_values = ''h1''\<rparr> \<and>
   components (snd (call_with_variants component_values
     (variant_function (Some \<lparr>contributes = True, hint = None, component_values = ''h1''\<rparr>))
     [''!system'', ''app''] (GroupingContext_init []) blank_world)) 0 =
     \<lparr>contributes = True, hint = None, component_values = ''h1''\<rparr>"
proof -
  let ?c = "\<lparr>contributes = True, hint = None, component_values = ''h1''\<rparr>"
  let ?ctx = "GroupingContext_init []"
  let ?w1 = "blank_world\<lparr>components := (components blank_world)(0 := ?c),
                         outside := Suc (outside blank_world)\<rparr>"
  let ?w2 = "?w1\<lparr>components := (components ?w1)(1 := ?c), outside := Suc (outside ?w1)\<rparr>"
  have sys: "variant_function (Some ?c) (?ctx\<lparr>stack := stack ?ctx @ [[(''variant'', PyStr ''system'')]]\<rparr>)
      blank_world = (Inr (Some [(''system'', Some 0)]), ?w1)"
    by (simp add: variant_function_def getitem_scope)
  have app: "variant_function (Some ?c) (?ctx\<lparr>stack := stack ?ctx @ [[(''variant'', PyStr ''app'')]]\<rparr>)
      ?w1 = (Inr (Some [(''app'', Some 1)]), ?w2)"
    by (simp add: variant_function_def getitem_scope)
  have c1: "contributes (components ?w1 0)" and c2: "contributes (components ?w2 1)"
    and h: "component_values (components ?w1 0) = component_values (components ?w2 1)"
    by simp_all
  show ?thesis
    using scenario_A_hash_match [OF getitem_init setitem_push setitem_push sys app c1 c2 h]
    by (simp add: update_component_def update_def)
qed

text \<open>
  The claim as it is written fails when the wrapped function returns one object for
  both variants: the object is returned contributing for \<^verbatim>\<open>system\<close>, and after the call
  the \<^verbatim>\<open>system\<close> entry, the same object as the \<^verbatim>\<open>app\<close> entry, is non-contributing with
  the hint.
\<close>

theorem scenario_A_shared_component:
  "fst (shared_function \<lparr>stack = [[], [(''variant'', PyNone)], [(''variant'', PyStr ''system'')]]\<rparr>
          blank_world) = Inr (Some [(''system'', Some 0)]) \<and>
   components (snd (shared_function
          \<lparr>stack = [[], [(''variant'', PyNone)], [(''variant'', PyStr ''system'')]]\<rparr> blank_world)) 0 =
     \<lparr>contributes = True, hint = None, component_values = ''h1''\<rparr> \<and>
   fst (call_with_variants component_values shared_function [''!system'', ''app'']
          (GroupingContext_init []) blank_world) =
     Inr (Some [(''system'', Some 0), (''app'', Some 0)]) \<and>
   components (snd (call_with_variants component_values shared_function [''!system'', ''app'']
          (GroupingContext_init []) blank_world)) 0 =
     \<lparr>contributes = False, hint = Some ''ignored because hash matches system variant'',
      component_values = ''h1''\<rparr>"
proof -
  have produced:
    "shared_function \<lparr>stack = [[], [(''variant'', PyNone)], [(''variant'', PyStr ''system'')]]\<rparr>
       blank_world =
     (Inr (Some [(''system'', Some 0)]),
      blank_world\<lparr>components := (components blank_world)
                      (0 := \<lparr>contributes = True, hint = None, component_values = ''h1''\<rparr>),
                  outside := Suc (outside blank_world)\<rparr>)"
    by (simp add: shared_function_def getitem_def dict_get_def)
  have called:
    "fst (call_with_variants component_values shared_function [''!system'', ''app'']
            (GroupingContext_init []) blank_world) =
       Inr (Some [(''system'', Some 0), (''app'', Some 0)]) \<and>
     components (snd (call_with_variants component_values shared_function [''!system'', ''app'']
            (GroupingContext_init []) blank_world)) 0 =
       \<lparr>contributes = False, hint = Some ''ignored because hash matches system variant'',
        component_values = ''h1''\<rparr>"
    by (simp add: variant_example_defs getitem_init)
  from called show ?thesis by (simp add: produced)
qed

text \<open>
  Claim C1 (scenario B). Top-level call with the candidates \<^verbatim>\<open>["!system", "app"]\<close>, where
  the function answers \<^verbatim>\<open>None\<close> for \<^verbatim>\<open>system\<close> and a contributing component for
  \<^verbatim>\<open>app\<close>. The claim expects \<^verbatim>\<open>app\<close> to end non-contributing with the hint
  \<^verbatim>\<open>ignored because system variant is not used\<close>, as the docstring of
  \<^verbatim>\<open>produces_variants\<close> announces (the app variant is discarded when the function
  returned \<^verbatim>\<open>None\<close> for \<^verbatim>\<open>system\<close>). The code skips a \<^verbatim>\<open>None\<close> component before it
  sets \<^verbatim>\<open>has_mandatory_hashes\<close>, so the rule does not fire and \<^verbatim>\<open>app\<close> is returned
  contributing, with its hint untouched.
\<close>

theorem scenario_B_app_still_contributes:
  "fst (call_with_variants component_values (variant_function None) [''!system'', ''app'']
     (GroupingContext_init []) blank_world) = Inr (Some [(''app'', Some 1)]) \<and>
   components (snd (call_with_variants component_values (variant_function None) [''!system'', ''app'']
     (GroupingContext_init []) blank_world)) 1 =
     \<lparr>contributes = True, hint = None, component_values = ''h1''\<rparr> \<and>
   outside (snd (call_with_variants component_values (variant_function None) [''!system'', ''app'']
     (GroupingContext_init []) blank_world)) = 2"
  by (simp add: variant_example_defs getitem_init)

text \<open>
  Claim C7. With no mandatory candidate (no candidate starts with \<^verbatim>\<open>!\<close>), a top-level
  call returns what the first loop collected and the world as the first loop left it:
  the second loop changes no object, whatever the hashes of the optional components
  are. The rule for an empty mandatory set does not fire, and every returned component
  is one the wrapped function returned for its variant.
\<close>

theorem no_mandatory_no_suppression:
  assumes optional: "\<forall>v\<in>set variants. take 1 v \<noteq> ''!''"
    and top: "getitem ctx ''variant'' = Inr PyNone"
  shows "call_with_variants get_hash f variants ctx w =
           (case collect_variants get_hash f ctx variants initial_resolution w of
              (Inl e, w') \<Rightarrow> (Inl e, w')
            | (Inr st, w') \<Rightarrow> (Inr (Some (returned (rv st))), w')) \<and>
         (\<forall>st w'. collect_variants get_hash f ctx variants initial_resolution w = (Inr st, w') \<longrightarrow>
            \<not> prevent_contribution st \<and>
            (\<forall>kv\<in>set (rv st). \<exists>w0 w1. invoke_pinned f ctx (fst kv) w0 = (Inr (Some (snd kv)), w1)))"
proof -
  obtain r w' where run: "collect_variants get_hash f ctx variants initial_resolution w = (r, w')"
    by force
  have first: "call_with_variants get_hash f variants ctx w =
           (case collect_variants get_hash f ctx variants initial_resolution w of
              (Inl e, w') \<Rightarrow> (Inl e, w')
            | (Inr st, w') \<Rightarrow> (Inr (Some (returned (rv st))), w'))"
  proof (cases r)
    case (Inl e)
    with run top show ?thesis by (simp add: call_with_variants_def)
  next
    case (Inr st)
    from run Inr have c: "collect_variants get_hash f ctx variants initial_resolution w = (Inr st, w')"
      by simp
    have "mandatory_contributing_hashes st = []" "\<not> has_mandatory_hashes st"
      using collect_variants_no_mandatory [OF c optional] by (simp_all add: initial_resolution_def)
    moreover have "set (optional_contributing_variants st) \<subseteq> fst ` set (rv st)"
      using collect_variants_keys [OF c] by (simp add: initial_resolution_def)
    ultimately show ?thesis
      using top c by (simp add: call_with_variants_def prevent_contribution_def suppress_variants_nothing)
  qed
  have second: "\<not> prevent_contribution st \<and>
            (\<forall>kv\<in>set (rv st). \<exists>w0 w1. invoke_pinned f ctx (fst kv) w0 = (Inr (Some (snd kv)), w1))"
    if c: "collect_variants get_hash f ctx variants initial_resolution w = (Inr st, w'')" for st w''
  proof
    show "\<not> prevent_contribution st"
      using collect_variants_no_mandatory [OF c optional]
      by (simp add: initial_resolution_def prevent_contribution_def)
    show "\<forall>kv\<in>set (rv st). \<exists>w0 w1. invoke_pinned f ctx (fst kv) w0 = (Inr (Some (snd kv)), w1)"
      using collect_variants_provenance [OF c] by (simp add: initial_resolution_def)
  qed
  from first second show ?thesis by blast
qed

text \<open>Two optional candidates with the same hash \<^verbatim>\<open>h1\<close>: both stay contributing.\<close>

theorem no_mandatory_no_suppression_witness:
  "fst (call_with_variants component_values
     (variant_function (Some \<lparr>contributes = True, hint = None, component_values = ''h1''\<rparr>))
     [''system'', ''app''] (GroupingContext_init []) blank_world) =
     Inr (Some [(''system'', Some 0), (''app'', Some 1)]) \<and>
   components (snd (call_with_variants component_values
     (variant_function (Some \<lparr>contributes = True, hint = None, component_values = ''h1''\<rparr>))
     [''system'', ''app''] (GroupingContext_init []) blank_world)) 0 =
     \<lparr>contributes = True, hint = None, component_values = ''h1''\<rparr> \<and>
   components (snd (call_with_variants component_values
     (variant_function (Some \<lparr>contributes = True, hint = None, component_values = ''h1''\<rparr>))
     [''system'', ''app''] (GroupingContext_init []) blank_world)) 1 =
     \<lparr>contributes = True, hint = None, component_values = ''h1''\<rparr>"
proof -
  have optional: "\<forall>v\<in>set [''system'', ''app'']. take 1 v \<noteq> ''!''"
    by simp
  show ?thesis
    using no_mandatory_no_suppression [OF optional getitem_init, of component_values
        "variant_function (Some \<lparr>contributes = True, hint = None, component_values = ''h1''\<rparr>)"
        "[]" blank_world]
    by (simp add: invoke_pinned_def setitem_push variant_function_def getitem_scope dict_get_def
        dict_set_def record_component_def initial_resolution_def returned_def blank_world_def)
qed

text \<open>
  Claim C10. Whenever the rule for an empty mandatory set fires, the dictionary of
  mandatory contributing hashes is empty, so it never has exactly one entry: the branch
  of the hint that names a single mandatory variant is not taken, and every object held
  for an optional contributing variant ends non-contributing with the hint
  \<^verbatim>\<open>ignored because other mandatory variant is not used\<close>; every other object is as
  the first loop left it, and the collected entries are returned.
\<close>

theorem mandatory_empty_hint:
  assumes top: "getitem ctx ''variant'' = Inr PyNone"
    and run: "collect_variants get_hash f ctx variants initial_resolution w = (Inr st, w')"
    and fires: "prevent_contribution st"
  shows "length (mandatory_contributing_hashes st) \<noteq> 1 \<and>
         not_used_hint (mandatory_contributing_hashes st) =
           ''ignored because other mandatory variant is not used'' \<and>
         call_with_variants get_hash f variants ctx w =
           (Inr (Some (returned (rv st))),
            w'\<lparr>components :=
                 (\<lambda>a. if \<exists>v\<in>set (optional_contributing_variants st). dict_get (rv st) v = Some a
                       then update (components w' a) False
                              ''ignored because other mandatory variant is not used''
                       else components w' a)\<rparr>)"
proof -
  have empty: "mandatory_contributing_hashes st = []"
    using fires by (simp add: prevent_contribution_def)
  have h: "not_used_hint (mandatory_contributing_hashes st) =
           ''ignored because other mandatory variant is not used''"
    by (simp add: empty not_used_hint_def)
  have inv: "set (optional_contributing_variants st) \<subseteq> fst ` set (rv st)"
    using collect_variants_keys [OF run] by (simp add: initial_resolution_def)
  have call: "call_with_variants get_hash f variants ctx w =
           (Inr (Some (returned (rv st))),
            w'\<lparr>components :=
                 (\<lambda>a. if \<exists>v\<in>set (optional_contributing_variants st). dict_get (rv st) v = Some a
                       then update (components w' a) False
                              (not_used_hint (mandatory_contributing_hashes st))
                       else components w' a)\<rparr>)"
    using top run fires
      suppress_variants_prevent [OF inv, of get_hash "mandatory_contributing_hashes st" w']
    by (simp add: call_with_variants_def)
  show ?thesis using call [unfolded h] h empty by simp
qed

text \<open>
  The mandatory \<^verbatim>\<open>system\<close> component exists and does not contribute; \<^verbatim>\<open>app\<close> is
  suppressed with the hint that names no variant.
\<close>

theorem mandatory_empty_hint_witness:
  "fst (call_with_variants component_values
     (variant_function (Some \<lparr>contributes = False, hint = None, component_values = ''h0''\<rparr>))
     [''!system'', ''app''] (GroupingContext_init []) blank_world) =
     Inr (Some [(''system'', Some 0), (''app'', Some 1)]) \<and>
   components (snd (call_with_variants component_values
     (variant_function (Some \<lparr>contributes = False, hint = None, component_values = ''h0''\<rparr>))
     [''!system'', ''app''] (GroupingContext_init []) blank_world)) 0 =
     \<lparr>contributes = False, hint = None, component_values = ''h0''\<rparr> \<and>
   components (snd (call_with_variants component_values
     (variant_function (Some \<lparr>contributes = False, hint = None, component_values = ''h0''\<rparr>))
     [''!system'', ''app''] (GroupingContext_init []) blank_world)) 1 =
     \<lparr>contributes = False, hint = Some ''ignored because other mandatory variant is not used'',
      component_values = ''h1''\<rparr>"
proof -
  let ?f = "variant_function (Some \<lparr>contributes = False, hint = None, component_values = ''h0''\<rparr>)"
  let ?st = "\<lparr>rv = [(''system'', 0), (''app'', 1)], has_mandatory_hashes = True,
              mandatory_contributing_hashes = ([] :: (string, string) dict),
              optional_contributing_variants = [''app'']\<rparr>"
  let ?run = "collect_variants component_values ?f (GroupingContext_init []) [''!system'', ''app'']
                initial_resolution blank_world"
  have "fst ?run = Inr ?st"
    by (simp add: invoke_pinned_def setitem_push variant_function_def getitem_scope dict_get_def
        dict_set_def record_component_def initial_resolution_def blank_world_def)
  then have run: "?run = (Inr ?st, snd ?run)"
    by (simp add: prod_eq_iff)
  have fires: "prevent_contribution ?st"
    by (simp add: prevent_contribution_def)
  have after: "components (snd ?run) 0 = \<lparr>contributes = False, hint = None, component_values = ''h0''\<rparr>"
      "components (snd ?run) 1 = \<lparr>contributes = True, hint = None, component_values = ''h1''\<rparr>"
    by (simp_all add: invoke_pinned_def setitem_push variant_function_def getitem_scope dict_get_def
        dict_set_def record_component_def initial_resolution_def blank_world_def)
  show ?thesis
    using mandatory_empty_hint [OF getitem_init run fires] after
    by (simp add: returned_def update_def dict_get_def)
qed


section \<open>Properties of strategy invocation\<close>

lemma collect_interfaces_absent:
  "iface_path \<in> set paths \<Longrightarrow> event_interfaces event iface_path = None \<Longrightarrow>
   collect_interfaces event paths args = None"
  by (induction paths arbitrary: args) (auto split: option.splits)

text \<open>
  Claim C8. When one of the strategy's interfaces is absent from the event,
  \<^verbatim>\<open>Strategy.get_grouping_component\<close> returns \<^verbatim>\<open>None\<close> and
  \<^verbatim>\<open>get_grouping_component_variants\<close> returns the empty dictionary; in both cases the
  world is the one before the call, so the wrapped function (and the variant processor)
  was not invoked.
\<close>

theorem absent_interface_not_applicable:
  assumes "iface_path \<in> set (interfaces strategy)"
    and "event_interfaces event iface_path = None"
  shows "get_grouping_component strategy event ctx variant w = (Inr None, w) \<and>
         get_grouping_component_variants strategy event ctx w = (Inr [], w)"
  using collect_interfaces_absent [OF assms, of "[]"]
  by (simp add: get_grouping_component_def get_grouping_component_variants_def)

text \<open>
  A strategy bound to \<^verbatim>\<open>exception\<close> and \<^verbatim>\<open>threads\<close> on an event that has only
  \<^verbatim>\<open>exception\<close>: the call counter stays 0, where one call of the function makes it 1.
\<close>

theorem absent_interface_not_applicable_witness:
  "get_grouping_component threads_strategy exception_event (GroupingContext_init []) None
     blank_world = (Inr None, blank_world) \<and>
   get_grouping_component_variants threads_strategy exception_event (GroupingContext_init [])
     blank_world = (Inr [], blank_world) \<and>
   outside blank_world = 0 \<and>
   outside (snd (func threads_strategy [(), ()] exception_event (GroupingContext_init [])
                   blank_world)) = 1"
proof -
  have a: "''threads'' \<in> set (interfaces threads_strategy)"
    by (simp add: threads_strategy_def Strategy_init_def)
  have b: "event_interfaces exception_event ''threads'' = None"
    by (simp add: exception_event_def)
  show ?thesis
    using absent_interface_not_applicable [OF a b, of "GroupingContext_init []" None blank_world]
    by (simp add: threads_strategy_def Strategy_init_def no_result_def blank_world_def)
qed

section \<open>Properties of the configuration builder\<close>

lemma nth_two_second: "(xs @ [a, b]) ! Suc (length xs) = b"
  by (simp add: nth_append)

lemma update_two_second: "(xs @ [a, b])[Suc (length xs) := c] = xs @ [a, c]"
  by (simp add: list_update_append)

lemma create_strategy_configuration_unfold:
  fixes reg :: "(string, ('i, 'c, 'w) Strategy) dict"
  shows "create_strategy_configuration reg cleandoc cid sids dids chlog hid bs rsk ic h =
     (let n = length (strategy_dicts h); m = length (context_dicts h);
          ds0 = (case bs of None \<Rightarrow> [] | Some b \<Rightarrow> strategies_of h b);
          dd0 = (case bs of None \<Rightarrow> [] | Some b \<Rightarrow> (strategy_dicts h @ [ds0]) ! delegates b);
          dc0 = (case bs of None \<Rightarrow> [] | Some b \<Rightarrow> initial_context_of h b)
      in case add_strategies reg cid (by_class_of ds0) (or_empty sids) ds0 of
           Inl e \<Rightarrow> (Inl e, h\<lparr>strategy_dicts := strategy_dicts h @ [ds0, dd0],
                              context_dicts := context_dicts h @ [dc0]\<rparr>)
         | Inr ds \<Rightarrow>
             (case add_delegates reg cid (or_empty dids) (dd0, {}) of
                Inl e \<Rightarrow> (Inl e, h\<lparr>strategy_dicts := strategy_dicts h @ [ds, dd0],
                                   context_dicts := context_dicts h @ [dc0]\<rparr>)
              | Inr st \<Rightarrow>
                  (Inr (StrategyConfiguration cid bs n (Suc n) m
                          (case rsk of None \<Rightarrow> RISK_LEVEL_LOW | Some r \<Rightarrow> r) hid
                          (cleandoc (or_empty chlog))),
                   h\<lparr>strategy_dicts := strategy_dicts h @ [ds, fst st],
                     context_dicts := context_dicts h @
                       [if or_empty ic \<noteq> [] then dict_update dc0 (or_empty ic) else dc0]\<rparr>)))"
proof (cases bs)
  case None
  obtain r1 where r1: "add_strategies reg cid
      (by_class_of ([] :: (string, ('i, 'c, 'w) Strategy) dict)) (or_empty sids) [] = r1" by simp
  obtain r2 where r2: "add_delegates reg cid (or_empty dids) ([], {}) = r2" by simp
  show ?thesis
    using None r1 r2
    by (cases r1; cases r2)
      (simp_all add: create_strategy_configuration_def Let_def new_strategy_dict_def
        new_context_dict_def set_strategy_dict_def set_context_dict_def nth_two_second
        update_two_second split_beta)
next
  case (Some b)
  obtain r1 where r1: "add_strategies reg cid (by_class_of (strategies_of h b)) (or_empty sids)
      (strategies_of h b) = r1" by simp
  obtain r2 where r2: "add_delegates reg cid (or_empty dids)
      ((strategy_dicts h @ [strategies_of h b]) ! delegates b, {}) = r2" by simp
  show ?thesis
    using Some r1 r2
    by (cases r1; cases r2)
      (simp_all add: create_strategy_configuration_def Let_def new_strategy_dict_def
        new_context_dict_def set_strategy_dict_def set_context_dict_def strategies_of_def
        delegates_of_def initial_context_of_def nth_two_second update_two_second split_beta)
qed

lemma dict_get_dict_set: "dict_get (dict_set d k v) x = (if x = k then Some v else dict_get d x)"
  by (simp add: dict_get_def dict_set_def update_conv')

lemma dict_get_set_all:
  "dict_get (foldl (\<lambda>acc i. dict_set acc i s) d ifaces) x =
     (if x \<in> set ifaces then Some s else dict_get d x)"
  by (induction ifaces arbitrary: d) (auto simp: dict_get_dict_set)

lemma add_interfaces_ok:
  "distinct ifaces \<Longrightarrow> set ifaces \<inter> nd = {} \<Longrightarrow>
   add_interfaces cid s ifaces (d, nd) =
     Inr (foldl (\<lambda>acc i. dict_set acc i s) d ifaces, nd \<union> set ifaces)"
  by (induction ifaces arbitrary: d nd) auto

lemma add_interfaces_duplicate:
  "\<not> (distinct ifaces \<and> set ifaces \<inter> nd = {}) \<Longrightarrow>
   \<exists>x. add_interfaces cid s ifaces (d, nd) = Inl (RuntimeError_duplicate cid x)"
proof (induction ifaces arbitrary: d nd)
  case Nil
  then show ?case by simp
next
  case (Cons i ifaces)
  show ?case
  proof (cases "i \<in> nd")
    case True
    then show ?thesis by simp
  next
    case False
    with Cons.prems have "\<not> (distinct ifaces \<and> set ifaces \<inter> insert i nd = {})" by auto
    from Cons.IH [OF this] False show ?thesis by simp
  qed
qed

lemma requested_interfaces_Cons:
  "requested_interfaces reg (sid # sids) =
     (case dict_get reg sid of None \<Rightarrow> [] | Some s \<Rightarrow> interfaces s) @ requested_interfaces reg sids"
  by (simp add: requested_interfaces_def)

lemma requested_interfaces_append:
  "requested_interfaces reg (xs @ ys) = requested_interfaces reg xs @ requested_interfaces reg ys"
  by (simp add: requested_interfaces_def)

lemma add_delegates_ok:
  "\<forall>sid\<in>set sids. \<exists>s. dict_get reg sid = Some s \<Longrightarrow>
   distinct (requested_interfaces reg sids) \<Longrightarrow>
   set (requested_interfaces reg sids) \<inter> nd = {} \<Longrightarrow>
   \<exists>dd. add_delegates reg cid sids (d, nd) = Inr (dd, nd \<union> set (requested_interfaces reg sids)) \<and>
        (\<forall>sid\<in>set sids. \<forall>s. dict_get reg sid = Some s \<longrightarrow>
           (\<forall>x\<in>set (interfaces s). dict_get dd x = Some s)) \<and>
        (\<forall>x. x \<notin> set (requested_interfaces reg sids) \<longrightarrow> dict_get dd x = dict_get d x)"
proof (induction sids arbitrary: d nd)
  case Nil
  then show ?case by (simp add: requested_interfaces_def)
next
  case (Cons sid sids)
  from Cons.prems(1) obtain s where s: "dict_get reg sid = Some s" by auto
  let ?d = "foldl (\<lambda>acc i. dict_set acc i s) d (interfaces s)"
  let ?nd = "nd \<union> set (interfaces s)"
  have req: "requested_interfaces reg (sid # sids) = interfaces s @ requested_interfaces reg sids"
    by (simp add: requested_interfaces_Cons s)
  have d1: "distinct (interfaces s)" and d2: "distinct (requested_interfaces reg sids)"
    and d3: "set (interfaces s) \<inter> set (requested_interfaces reg sids) = {}"
    using Cons.prems(2) by (auto simp: req)
  have n1: "set (interfaces s) \<inter> nd = {}" and n2: "set (requested_interfaces reg sids) \<inter> ?nd = {}"
    using Cons.prems(3) d3 by (auto simp: req)
  have known: "\<forall>sid\<in>set sids. \<exists>s. dict_get reg sid = Some s" using Cons.prems(1) by simp
  from Cons.IH [OF known d2 n2, of ?d]
  obtain dd where run: "add_delegates reg cid sids (?d, ?nd) =
        Inr (dd, ?nd \<union> set (requested_interfaces reg sids))"
    and new: "\<forall>sid\<in>set sids. \<forall>s. dict_get reg sid = Some s \<longrightarrow>
           (\<forall>x\<in>set (interfaces s). dict_get dd x = Some s)"
    and old: "\<forall>x. x \<notin> set (requested_interfaces reg sids) \<longrightarrow> dict_get dd x = dict_get ?d x"
    by blast
  have "add_delegates reg cid (sid # sids) (d, nd) =
      Inr (dd, nd \<union> set (requested_interfaces reg (sid # sids)))"
    using run by (simp add: lookup_strategy_def s add_interfaces_ok [OF d1 n1] req Un_assoc)
  moreover have "\<forall>x\<in>set (interfaces s). dict_get dd x = Some s"
    using old d3 by (auto simp: dict_get_set_all)
  moreover have "\<forall>x. x \<notin> set (requested_interfaces reg (sid # sids)) \<longrightarrow> dict_get dd x = dict_get d x"
    using old by (simp add: req dict_get_set_all)
  ultimately show ?case using new s by auto
qed

lemma add_delegates_conflict:
  "\<not> (distinct (requested_interfaces reg sids) \<and> set (requested_interfaces reg sids) \<inter> nd = {}) \<Longrightarrow>
   \<exists>e. add_delegates reg cid sids (d, nd) = Inl e \<and>
       ((\<forall>sid\<in>set sids. \<exists>s. dict_get reg sid = Some s) \<longrightarrow> (\<exists>x. e = RuntimeError_duplicate cid x))"
proof (induction sids arbitrary: d nd)
  case Nil
  then show ?case by (simp add: requested_interfaces_def)
next
  case (Cons sid sids)
  show ?case
  proof (cases "dict_get reg sid")
    case None
    then show ?thesis by (auto simp: lookup_strategy_def)
  next
    case (Some s)
    have req: "requested_interfaces reg (sid # sids) = interfaces s @ requested_interfaces reg sids"
      by (simp add: requested_interfaces_Cons Some)
    show ?thesis
    proof (cases "distinct (interfaces s) \<and> set (interfaces s) \<inter> nd = {}")
      case False
      from add_interfaces_duplicate [OF this, of cid s d]
      show ?thesis by (auto simp: lookup_strategy_def Some)
    next
      case True
      then have ok: "add_interfaces cid s (interfaces s) (d, nd) =
          Inr (foldl (\<lambda>acc i. dict_set acc i s) d (interfaces s), nd \<union> set (interfaces s))"
        by (simp add: add_interfaces_ok)
      have "\<not> (distinct (requested_interfaces reg sids) \<and>
               set (requested_interfaces reg sids) \<inter> (nd \<union> set (interfaces s)) = {})"
        using Cons.prems True by (auto simp: req)
      from Cons.IH [OF this, of "foldl (\<lambda>acc i. dict_set acc i s) d (interfaces s)"]
      show ?thesis by (auto simp: lookup_strategy_def Some ok)
    qed
  qed
qed

lemma add_strategies_ok:
  "\<forall>sid\<in>set sids. \<exists>s. dict_get reg sid = Some s \<and> score s \<noteq> None \<Longrightarrow>
   \<exists>ds. add_strategies reg cid by_class sids d = Inr ds"
proof (induction sids arbitrary: d)
  case Nil
  then show ?case by simp
next
  case (Cons sid sids)
  then obtain s sc where "dict_get reg sid = Some s" "score s = Some sc" by auto
  with Cons show ?case by (simp add: lookup_strategy_def)
qed

lemma shared_interface_not_distinct:
  assumes "i < j" "j < length sids"
    and "dict_get reg (sids ! i) = Some s1" "dict_get reg (sids ! j) = Some s2"
    and "x \<in> set (interfaces s1)" "x \<in> set (interfaces s2)"
  shows "\<not> distinct (requested_interfaces reg sids)"
proof -
  have split: "sids = take j sids @ sids ! j # drop (Suc j) sids"
    using assms(2) by (rule id_take_nth_drop)
  have "sids ! i \<in> set (take j sids)"
    using assms(1,2) by (metis in_set_conv_nth length_take min.absorb2 less_imp_le_nat nth_take)
  then have "x \<in> set (requested_interfaces reg (take j sids))"
    using assms(3,5) by (force simp: requested_interfaces_def)
  moreover have "x \<in> set (requested_interfaces reg (sids ! j # drop (Suc j) sids))"
    using assms(4,6) by (simp add: requested_interfaces_Cons)
  ultimately have "\<not> distinct (requested_interfaces reg (take j sids) @
      requested_interfaces reg (sids ! j # drop (Suc j) sids))"
    by auto
  then show ?thesis using split requested_interfaces_append [of reg "take j sids"] by metis
qed

lemma add_interfaces_other:
  "add_interfaces cid s ifaces (d, nd) = Inr (d', nd') \<Longrightarrow> x \<notin> set ifaces \<Longrightarrow>
   dict_get d' x = dict_get d x"
  by (induction ifaces arbitrary: d nd) (auto simp: dict_get_dict_set split: if_splits)

lemma add_delegates_other:
  "add_delegates reg cid sids (d, nd) = Inr (d', nd') \<Longrightarrow>
   x \<notin> set (requested_interfaces reg sids) \<Longrightarrow> dict_get d' x = dict_get d x"
proof (induction sids arbitrary: d nd)
  case Nil
  then show ?case by simp
next
  case (Cons sid sids)
  from Cons.prems(1) obtain s where s: "dict_get reg sid = Some s"
    by (auto simp: lookup_strategy_def split: option.splits)
  from Cons.prems(1) s obtain d1 nd1
    where first: "add_interfaces cid s (interfaces s) (d, nd) = Inr (d1, nd1)"
      and rest: "add_delegates reg cid sids (d1, nd1) = Inr (d', nd')"
    by (auto simp: lookup_strategy_def split: sum.splits)
  have "x \<notin> set (interfaces s)" "x \<notin> set (requested_interfaces reg sids)"
    using Cons.prems(2) by (simp_all add: requested_interfaces_Cons s)
  with Cons.IH [OF rest] add_interfaces_other [OF first] show ?case by simp
qed

lemma dict_get_dict_update_other:
  "k \<notin> fst ` set e \<Longrightarrow> dict_get (dict_update d e) k = dict_get d k"
  unfolding dict_update_def
  by (induction e arbitrary: d) (auto simp: dict_get_dict_set)

lemma dict_get_dict_update_entry:
  "distinct (map fst e) \<Longrightarrow> (k, v) \<in> set e \<Longrightarrow> dict_get (dict_update d e) k = Some v"
proof (induction e arbitrary: d)
  case Nil
  then show ?case by simp
next
  case (Cons p e)
  show ?case
  proof (cases "p = (k, v)")
    case True
    then have "k \<notin> fst ` set e" using Cons.prems(1) by auto
    from dict_get_dict_update_other [OF this, of "dict_set d k v"] True
    show ?thesis by (simp add: dict_update_def dict_get_dict_set)
  next
    case False
    with Cons.prems have "(k, v) \<in> set e" "distinct (map fst e)" by auto
    from Cons.IH [OF this(2,1), of "dict_set d (fst p) (snd p)"]
    show ?thesis by (simp add: dict_update_def)
  qed
qed

lemma create_from_base:
  fixes reg :: "(string, ('i, 'c, 'w) Strategy) dict"
  assumes valid: "valid_configuration h b"
    and build: "create_strategy_configuration reg cleandoc cid strategy_ids delegate_ids chlog hid
                  (Some b) rsk ic h = (r, h')"
  shows "\<exists>x y z. h' = h\<lparr>strategy_dicts := strategy_dicts h @ [x, y],
                          context_dicts := context_dicts h @ [z]\<rparr> \<and>
      (\<forall>cfg. r = Inr cfg \<longrightarrow>
        cfg = StrategyConfiguration cid (Some b) (length (strategy_dicts h))
                (Suc (length (strategy_dicts h))) (length (context_dicts h))
                (case rsk of None \<Rightarrow> RISK_LEVEL_LOW | Some r \<Rightarrow> r) hid (cleandoc (or_empty chlog)) \<and>
        add_strategies reg cid (by_class_of (strategies_of h b)) (or_empty strategy_ids)
          (strategies_of h b) = Inr x \<and>
        (\<exists>nd. add_delegates reg cid (or_empty delegate_ids) (delegates_of h b, {}) = Inr (y, nd)) \<and>
        z = (if or_empty ic \<noteq> [] then dict_update (initial_context_of h b) (or_empty ic)
             else initial_context_of h b))"
proof -
  let ?ds0 = "strategies_of h b"
  let ?dd0 = "delegates_of h b"
  have vd: "delegates b < length (strategy_dicts h)"
    using valid by (simp add: valid_configuration_def)
  have dd0: "(strategy_dicts h @ [?ds0]) ! delegates b = ?dd0"
    using vd by (simp add: nth_append delegates_of_def)
  note unfold = build [unfolded create_strategy_configuration_unfold Let_def option.case dd0]
  show ?thesis
  proof (cases "add_strategies reg cid (by_class_of ?ds0) (or_empty strategy_ids) ?ds0")
    case (Inl e)
    with unfold show ?thesis by auto
  next
    case (Inr ds)
    show ?thesis
    proof (cases "add_delegates reg cid (or_empty delegate_ids) (?dd0, {})")
      case (Inl e)
      with unfold Inr show ?thesis by auto
    next
      case Inr2: (Inr st)
      with unfold Inr show ?thesis by (cases st) auto
    qed
  qed
qed

lemma strategies_of_built:
  fixes reg :: "(string, ('i, 'c, 'w) Strategy) dict"
  assumes valid: "valid_configuration h b"
    and build: "create_strategy_configuration reg cleandoc cid strategy_ids delegate_ids chlog hid
                  (Some b) rsk ic h = (Inr cfg, h')"
  shows "add_strategies reg cid (by_class_of (strategies_of h b)) (or_empty strategy_ids)
           (strategies_of h b) = Inr (strategies_of h' cfg)"
proof -
  from create_from_base [OF valid build]
  obtain x y z where shape: "h' = h\<lparr>strategy_dicts := strategy_dicts h @ [x, y],
                                    context_dicts := context_dicts h @ [z]\<rparr>"
    and cfg: "strategies cfg = length (strategy_dicts h)"
    and x: "add_strategies reg cid (by_class_of (strategies_of h b)) (or_empty strategy_ids)
              (strategies_of h b) = Inr x"
    by auto
  have "strategies_of h' cfg = x"
    by (simp add: strategies_of_def shape cfg)
  with x show ?thesis by simp
qed

text \<open>
  What the loop over the requested strategies guarantees against the base. The entries
  of a class that is not requested keep their values. When the requested ids have
  pairwise different classes, the result holds, for each requested class, exactly the
  requested id with its registered strategy. Both need the dictionaries to be well
  formed; neither says anything about two requested ids of one class.
\<close>

lemma well_formed_entry:
  "well_formed d \<Longrightarrow> dict_get d k = Some s \<Longrightarrow> strategy_id s = k \<and> strategy_class s = class_of k"
  unfolding well_formed_def dict_get_def list_all_iff by (auto dest: map_of_SomeD)

lemma dict_get_dict_pop: "dict_get (dict_pop d x) k = (if k = x then None else dict_get d k)"
  by (simp add: dict_get_def dict_pop_def delete_conv')

lemma dict_get_pop_all:
  "dict_get (foldl dict_pop d ks) k = (if k \<in> set ks then None else dict_get d k)"
  by (induction ks arbitrary: d) (auto simp: dict_get_dict_pop)

lemma by_class_add_get:
  "or_empty (dict_get (foldl by_class_add bc ss) c) =
     or_empty (dict_get bc c) @ map strategy_id (filter (\<lambda>s. strategy_class s = c) ss)"
  by (induction ss arbitrary: bc) (auto simp: by_class_add_def dict_get_dict_set or_empty_def)

lemma by_class_of_get:
  "set (or_empty (dict_get (by_class_of d) c)) =
     {strategy_id s | s. s \<in> snd ` set d \<and> strategy_class s = c}"
proof -
  have "or_empty (dict_get ([] :: (string, string list) dict) c) = []"
    by (simp add: or_empty_def dict_get_def)
  then have "or_empty (dict_get (by_class_of d) c) =
      map strategy_id (filter (\<lambda>s. strategy_class s = c) (map snd d))"
    by (simp add: by_class_of_def by_class_add_get dict_values_def)
  then show ?thesis by auto
qed

lemma by_class_of_well_formed:
  assumes "well_formed d"
  shows "k \<in> set (or_empty (dict_get (by_class_of d) c)) \<longleftrightarrow> (dict_get d k \<noteq> None \<and> class_of k = c)"
proof
  assume "k \<in> set (or_empty (dict_get (by_class_of d) c))"
  then obtain k' s where e: "(k', s) \<in> set d" and s: "strategy_class s = c" "strategy_id s = k"
    by (auto simp: by_class_of_get)
  from e assms have "dict_get d k' = Some s"
    by (simp add: well_formed_def dict_get_def)
  with well_formed_entry [OF assms this] s show "dict_get d k \<noteq> None \<and> class_of k = c" by auto
next
  assume a: "dict_get d k \<noteq> None \<and> class_of k = c"
  then obtain s where g: "dict_get d k = Some s" by auto
  then have "(k, s) \<in> set d" by (auto simp: dict_get_def dest: map_of_SomeD)
  with well_formed_entry [OF assms g] a show "k \<in> set (or_empty (dict_get (by_class_of d) c))"
    by (force simp: by_class_of_get)
qed

lemma registered_Cons:
  "registered reg (sid # sids) \<Longrightarrow> dict_get reg sid = Some s \<Longrightarrow>
   strategy_class s = class_of sid \<and> registered reg sids"
  by (simp add: registered_def)

lemma add_strategies_other_class:
  assumes "well_formed d0" and "registered reg sids"
    and "add_strategies reg cid (by_class_of d0) sids d = Inr d'"
    and "class_of k \<notin> class_of ` set sids"
  shows "dict_get d' k = dict_get d k"
  using assms(2-4)
proof (induction sids arbitrary: d)
  case Nil
  then show ?case by simp
next
  case (Cons sid sids)
  from Cons.prems(2) obtain s where s: "dict_get reg sid = Some s"
    by (auto simp: lookup_strategy_def split: option.splits)
  from registered_Cons [OF Cons.prems(1) s]
  have cls: "strategy_class s = class_of sid" and reg': "registered reg sids" by auto
  let ?d = "dict_set (foldl dict_pop d (or_empty (dict_get (by_class_of d0) (strategy_class s)))) sid s"
  have step: "add_strategies reg cid (by_class_of d0) sids ?d = Inr d'"
    using Cons.prems(2) s by (auto simp: lookup_strategy_def split: option.splits)
  have other: "class_of k \<noteq> class_of sid" "class_of k \<notin> class_of ` set sids"
    using Cons.prems(3) by auto
  then have "k \<noteq> sid" by auto
  moreover have "k \<notin> set (or_empty (dict_get (by_class_of d0) (strategy_class s)))"
    using other(1) by (simp add: by_class_of_well_formed [OF assms(1)] cls)
  ultimately have "dict_get ?d k = dict_get d k"
    by (simp add: dict_get_dict_set dict_get_pop_all)
  with Cons.IH [OF reg' step other(2)] show ?case by simp
qed

lemma add_strategies_one_per_class:
  assumes "well_formed d0" and "registered reg sids"
    and "add_strategies reg cid (by_class_of d0) sids d = Inr d'"
    and "distinct (map class_of sids)"
    and "\<forall>k. dict_get d k \<noteq> None \<and> class_of k \<in> class_of ` set sids \<longrightarrow> dict_get d0 k \<noteq> None"
  shows "dict_get d' k =
           (if class_of k \<in> class_of ` set sids
            then (if k \<in> set sids then dict_get reg k else None)
            else dict_get d k)"
  using assms(2-5)
proof (induction sids arbitrary: d)
  case Nil
  then show ?case by simp
next
  case (Cons sid sids)
  from Cons.prems(2) obtain s where s: "dict_get reg sid = Some s"
    by (auto simp: lookup_strategy_def split: option.splits)
  from registered_Cons [OF Cons.prems(1) s]
  have cls: "strategy_class s = class_of sid" and reg': "registered reg sids" by auto
  let ?ks = "or_empty (dict_get (by_class_of d0) (strategy_class s))"
  let ?d = "dict_set (foldl dict_pop d ?ks) sid s"
  have ks: "x \<in> set ?ks \<longleftrightarrow> (dict_get d0 x \<noteq> None \<and> class_of x = class_of sid)" for x
    by (simp add: by_class_of_well_formed [OF assms(1)] cls)
  have get: "dict_get ?d x = (if x = sid then Some s else if x \<in> set ?ks then None else dict_get d x)" for x
    by (simp add: dict_get_dict_set dict_get_pop_all)
  have step: "add_strategies reg cid (by_class_of d0) sids ?d = Inr d'"
    using Cons.prems(2) s by (auto simp: lookup_strategy_def split: option.splits)
  have fresh: "class_of sid \<notin> class_of ` set sids" and dist: "distinct (map class_of sids)"
    using Cons.prems(3) by auto
  have inv: "\<forall>x. dict_get ?d x \<noteq> None \<and> class_of x \<in> class_of ` set sids \<longrightarrow> dict_get d0 x \<noteq> None"
    using Cons.prems(4) fresh by (auto simp: get split: if_splits)
  note IH = Cons.IH [OF reg' step dist inv]
  show ?case
  proof (cases "class_of k \<in> class_of ` set sids")
    case True
    then have "k \<noteq> sid" using fresh by auto
    with True IH show ?thesis by auto
  next
    case False
    show ?thesis
    proof (cases "class_of k = class_of sid")
      case True
      have "dict_get ?d k = (if k = sid then Some s else None)"
        using Cons.prems(4) True by (auto simp: get ks)
      moreover have "k \<notin> set sids" using False by auto
      ultimately show ?thesis using IH False True s by auto
    next
      case other: False
      then have "dict_get ?d k = dict_get d k" by (auto simp: get ks)
      with IH False other show ?thesis by auto
    qed
  qed
qed

lemma well_formed_dict_set:
  "well_formed d \<Longrightarrow> strategy_id s = k \<Longrightarrow> strategy_class s = class_of k \<Longrightarrow>
   well_formed (dict_set d k s)"
  unfolding well_formed_def list_all_iff
  using set_dict_set_subset [of d k s] by (auto simp: distinct_dict_set)

lemma well_formed_dict_pop: "well_formed d \<Longrightarrow> well_formed (dict_pop d k)"
proof -
  assume wf: "well_formed d"
  have "set (AList.delete k d) \<subseteq> set d" by (auto simp: AList.delete_eq)
  moreover have "distinct (map fst (AList.delete k d))"
    using wf by (simp add: well_formed_def distinct_delete)
  ultimately show ?thesis
    using wf unfolding well_formed_def list_all_iff dict_pop_def by blast
qed

lemma well_formed_pop_all: "well_formed d \<Longrightarrow> well_formed (foldl dict_pop d ks)"
  by (induction ks arbitrary: d) (auto simp: well_formed_dict_pop)

lemma well_formed_register:
  "well_formed reg \<Longrightarrow> well_formed (register ids nm ifaces sc f reg)"
  unfolding register_def
  by (induction ids arbitrary: reg)
     (auto simp: well_formed_dict_set Strategy_init_def class_of_def)

lemma well_formed_registered: "well_formed reg \<Longrightarrow> registered reg sids"
  unfolding registered_def list_all_iff
  by (auto split: option.splits dest: well_formed_entry)

lemma add_strategies_well_formed:
  "well_formed reg \<Longrightarrow> well_formed d \<Longrightarrow> add_strategies reg cid by_class sids d = Inr d' \<Longrightarrow>
   well_formed d'"
proof (induction sids arbitrary: d)
  case Nil
  then show ?case by simp
next
  case (Cons sid sids)
  from Cons.prems(3) obtain s where s: "dict_get reg sid = Some s"
    by (auto simp: lookup_strategy_def split: option.splits)
  let ?d = "dict_set (foldl dict_pop d (or_empty (dict_get by_class (strategy_class s)))) sid s"
  have step: "add_strategies reg cid by_class sids ?d = Inr d'"
    using Cons.prems(3) s by (auto simp: lookup_strategy_def split: option.splits)
  have "well_formed ?d"
    using well_formed_entry [OF Cons.prems(1) s] Cons.prems(2)
    by (simp add: well_formed_dict_set well_formed_pop_all)
  from Cons.IH [OF Cons.prems(1) this step] show ?case .
qed

lemma build_well_formed:
  fixes reg :: "(string, ('i, 'c, 'w) Strategy) dict"
  assumes "valid_configuration h b" and "well_formed reg" and "well_formed (strategies_of h b)"
    and "create_strategy_configuration reg cleandoc cid strategy_ids delegate_ids chlog hid
           (Some b) rsk ic h = (Inr cfg, h')"
  shows "well_formed (strategies_of h' cfg)"
  using add_strategies_well_formed [OF assms(2,3) strategies_of_built [OF assms(1,4)]] .

lemma build_keeps_other_classes:
  fixes reg :: "(string, ('i, 'c, 'w) Strategy) dict"
  assumes "valid_configuration h b" and "well_formed (strategies_of h b)"
    and "registered reg (or_empty strategy_ids)"
    and "create_strategy_configuration reg cleandoc cid strategy_ids delegate_ids chlog hid
           (Some b) rsk ic h = (Inr cfg, h')"
    and "class_of k \<notin> class_of ` set (or_empty strategy_ids)"
  shows "dict_get (strategies_of h' cfg) k = dict_get (strategies_of h b) k"
  using add_strategies_other_class [OF assms(2,3) strategies_of_built [OF assms(1,4)] assms(5)] .

lemma build_one_per_requested_class:
  fixes reg :: "(string, ('i, 'c, 'w) Strategy) dict"
  assumes "valid_configuration h b" and "well_formed (strategies_of h b)"
    and "registered reg (or_empty strategy_ids)"
    and "create_strategy_configuration reg cleandoc cid strategy_ids delegate_ids chlog hid
           (Some b) rsk ic h = (Inr cfg, h')"
    and "distinct (map class_of (or_empty strategy_ids))"
  shows "dict_get (strategies_of h' cfg) k =
           (if class_of k \<in> class_of ` set (or_empty strategy_ids)
            then (if k \<in> set (or_empty strategy_ids) then dict_get reg k else None)
            else dict_get (strategies_of h b) k)"
  using add_strategies_one_per_class [OF assms(2,3) strategies_of_built [OF assms(1,4)] assms(5)]
  by simp

lemmas example_defs =
  example_registry_def register_def Strategy_init_def empty_store_def create_strategy_configuration_def
  new_strategy_dict_def new_context_dict_def set_strategy_dict_def set_context_dict_def
  strategies_of_def delegates_of_def initial_context_of_def or_empty_def by_class_of_def
  by_class_add_def dict_values_def dict_get_def dict_set_def dict_pop_def lookup_strategy_def
  RISK_LEVEL_LOW_def Let_def base_configuration_def base_store_def derived_configuration_def
  derived_store_def

lemma conflicting_delegates_build:
  "create_strategy_configuration example_registry (\<lambda>s. s) ''cfg'' None
     (Some [''exception:v1'', ''exception:v2'']) None False None None None empty_store =
   (Inl (RuntimeError_duplicate ''cfg'' ''exception''),
    \<lparr>strategy_dicts = [[], []], context_dicts = [[]]\<rparr>)"
  by (simp add: example_defs)

lemma base_build:
  "create_strategy_configuration example_registry (\<lambda>s. s) ''base'' (Some [''frame:v1''])
     (Some [''exception:v1'']) None False None None None empty_store =
   (Inr base_configuration, base_store)"
  by (simp add: example_defs)

lemma derived_build:
  "create_strategy_configuration example_registry (\<lambda>s. s) ''derived'' (Some [''frame:v2''])
     (Some [''exception:v2'']) None False (Some base_configuration) None (Some [(''k'', PyInt 1)])
     base_store =
   (Inr derived_configuration, derived_store)"
  by (simp add: example_defs dict_update_def)

text \<open>
  Claim C2. The claim: in every built configuration no two strategies share a
  \<^verbatim>\<open>strategy_class\<close>, because adding a strategy of a class that has an entry evicts the
  old entry. The docstring of \<^verbatim>\<open>create_strategy_configuration\<close> says the same (a
  strategy of the same class is replaced). The code evicts through \<^verbatim>\<open>by_class\<close>, which
  is filled from the base's strategies before the loop and is not extended when the loop
  adds a strategy. Requesting \<^verbatim>\<open>frame:v1\<close> and \<^verbatim>\<open>frame:v2\<close> with no base leaves both
  in the result, two strategies of the class \<^verbatim>\<open>frame\<close>.
\<close>

theorem two_strategies_of_one_class:
  "(case create_strategy_configuration example_registry (\<lambda>s. s) ''cfg''
           (Some [''frame:v1'', ''frame:v2'']) None None False None None None empty_store of
      (Inr cfg, h') \<Rightarrow> map (\<lambda>kv. (fst kv, strategy_class (snd kv))) (strategies_of h' cfg)
    | (Inl e, h') \<Rightarrow> []) =
   [(''frame:v1'', ''frame''), (''frame:v2'', ''frame'')]"
  by (simp add: example_defs)

text \<open>
  Claim C4. The claim: a class of the base that the new configuration does not specify
  again is kept, and for a class specified in both the new choice wins and exactly one
  entry of that class remains. The first half holds (\<open>build_keeps_other_classes\<close>), and
  so does the second when no two requested ids share a class
  (\<open>build_one_per_requested_class\<close>): on the base built from \<^verbatim>\<open>frame:v1\<close>, requesting
  \<^verbatim>\<open>frame:v2\<close> replaces the base's entry. Requesting \<^verbatim>\<open>frame:v2\<close> and \<^verbatim>\<open>frame:v3\<close>
  evicts the base's \<^verbatim>\<open>frame:v1\<close> twice and keeps both new strategies: two entries of the
  class \<^verbatim>\<open>frame\<close>, through the same stale \<^verbatim>\<open>by_class\<close> as in claim C2.
\<close>

theorem base_class_overridden_twice:
  "(case create_strategy_configuration example_registry (\<lambda>s. s) ''derived''
           (Some [''frame:v2'']) None None False (Some base_configuration) None None base_store of
      (Inr cfg, h') \<Rightarrow> map (\<lambda>kv. (fst kv, strategy_class (snd kv))) (strategies_of h' cfg)
    | (Inl e, h') \<Rightarrow> []) =
   [(''frame:v2'', ''frame'')] \<and>
   (case create_strategy_configuration example_registry (\<lambda>s. s) ''derived''
           (Some [''frame:v2'', ''frame:v3'']) None None False (Some base_configuration) None None
           base_store of
      (Inr cfg, h') \<Rightarrow> map (\<lambda>kv. (fst kv, strategy_class (snd kv))) (strategies_of h' cfg)
    | (Inl e, h') \<Rightarrow> []) =
   [(''frame:v2'', ''frame''), (''frame:v3'', ''frame'')]"
  by (simp add: example_defs)

text \<open>
  Claim C5. When two requested delegates (at two positions of the list) are registered
  and declare a common interface, the build fails; the exception is the duplicate
  \<^verbatim>\<open>RuntimeError\<close> whenever no earlier check of the same call fails first, that is when
  every requested strategy is registered and scored and every requested delegate is
  registered. When the interfaces of the requested delegates are pairwise different the
  build succeeds whatever the base's delegates are, and each requested delegate is the
  entry of each of its interfaces: an entry inherited from the base for that interface
  is replaced without an error.
\<close>

theorem duplicate_delegate_check:
  fixes reg :: "(string, ('i, 'c, 'w) Strategy) dict"
  assumes build: "create_strategy_configuration reg cleandoc cid strategy_ids (Some delegate_ids)
                    chlog hid bs rsk ic h = (r, h')"
  shows "(i < j \<and> j < length delegate_ids \<and>
            dict_get reg (delegate_ids ! i) = Some s1 \<and> dict_get reg (delegate_ids ! j) = Some s2 \<and>
            x \<in> set (interfaces s1) \<and> x \<in> set (interfaces s2) \<longrightarrow>
          (\<exists>e. r = Inl e \<and>
             ((\<forall>sid\<in>set (or_empty strategy_ids). \<exists>s. dict_get reg sid = Some s \<and> score s \<noteq> None) \<and>
              (\<forall>sid\<in>set delegate_ids. \<exists>s. dict_get reg sid = Some s) \<longrightarrow>
              (\<exists>y. e = RuntimeError_duplicate cid y)))) \<and>
         ((\<forall>sid\<in>set (or_empty strategy_ids). \<exists>s. dict_get reg sid = Some s \<and> score s \<noteq> None) \<and>
          (\<forall>sid\<in>set delegate_ids. \<exists>s. dict_get reg sid = Some s) \<and>
          distinct (requested_interfaces reg delegate_ids) \<longrightarrow>
          (\<exists>cfg. r = Inr cfg \<and>
             (\<forall>sid\<in>set delegate_ids. \<forall>s. dict_get reg sid = Some s \<longrightarrow>
                (\<forall>y\<in>set (interfaces s). dict_get (delegates_of h' cfg) y = Some s))))"
proof (intro conjI impI)
  let ?ds0 = "case bs of None \<Rightarrow> [] | Some b \<Rightarrow> strategies_of h b"
  let ?dd0 = "case bs of None \<Rightarrow> [] | Some b \<Rightarrow> (strategy_dicts h @ [?ds0]) ! delegates b"
  note unfold = build [unfolded create_strategy_configuration_unfold Let_def]
  {
    assume conflict: "i < j \<and> j < length delegate_ids \<and>
            dict_get reg (delegate_ids ! i) = Some s1 \<and> dict_get reg (delegate_ids ! j) = Some s2 \<and>
            x \<in> set (interfaces s1) \<and> x \<in> set (interfaces s2)"
    then have "\<not> distinct (requested_interfaces reg delegate_ids)"
      using shared_interface_not_distinct [of i j delegate_ids reg s1 s2 x] by blast
    then obtain e where e: "add_delegates reg cid delegate_ids (?dd0, {}) = Inl e"
      and kind: "(\<forall>sid\<in>set delegate_ids. \<exists>s. dict_get reg sid = Some s) \<longrightarrow>
                 (\<exists>y. e = RuntimeError_duplicate cid y)"
      using add_delegates_conflict [of reg delegate_ids "{}" cid ?dd0] by auto
    show "\<exists>e. r = Inl e \<and>
             ((\<forall>sid\<in>set (or_empty strategy_ids). \<exists>s. dict_get reg sid = Some s \<and> score s \<noteq> None) \<and>
              (\<forall>sid\<in>set delegate_ids. \<exists>s. dict_get reg sid = Some s) \<longrightarrow>
              (\<exists>y. e = RuntimeError_duplicate cid y))"
    proof (cases "add_strategies reg cid (by_class_of ?ds0) (or_empty strategy_ids) ?ds0")
      case (Inl e')
      have "r = Inl e'" using unfold Inl by simp
      moreover have "\<not> (\<forall>sid\<in>set (or_empty strategy_ids). \<exists>s. dict_get reg sid = Some s \<and> score s \<noteq> None)"
      proof
        assume "\<forall>sid\<in>set (or_empty strategy_ids). \<exists>s. dict_get reg sid = Some s \<and> score s \<noteq> None"
        from add_strategies_ok [OF this, of cid "by_class_of ?ds0" ?ds0] Inl
        show False by simp
      qed
      ultimately show ?thesis by blast
    next
      case (Inr ds)
      have "r = Inl e" using unfold Inr e by (simp add: or_empty_def)
      with kind show ?thesis by blast
    qed
  }
  {
    assume ok: "(\<forall>sid\<in>set (or_empty strategy_ids). \<exists>s. dict_get reg sid = Some s \<and> score s \<noteq> None) \<and>
          (\<forall>sid\<in>set delegate_ids. \<exists>s. dict_get reg sid = Some s) \<and>
          distinct (requested_interfaces reg delegate_ids)"
    then obtain ds where ds: "add_strategies reg cid (by_class_of ?ds0) (or_empty strategy_ids) ?ds0 = Inr ds"
      using add_strategies_ok [of "or_empty strategy_ids" reg cid "by_class_of ?ds0" ?ds0] by blast
    from ok obtain dd where dd: "add_delegates reg cid delegate_ids (?dd0, {}) =
          Inr (dd, {} \<union> set (requested_interfaces reg delegate_ids))"
      and new: "\<forall>sid\<in>set delegate_ids. \<forall>s. dict_get reg sid = Some s \<longrightarrow>
           (\<forall>x\<in>set (interfaces s). dict_get dd x = Some s)"
      using add_delegates_ok [of delegate_ids reg "{}" cid ?dd0] by auto
    have r: "r = Inr (StrategyConfiguration cid bs (length (strategy_dicts h))
                 (Suc (length (strategy_dicts h))) (length (context_dicts h))
                 (case rsk of None \<Rightarrow> RISK_LEVEL_LOW | Some r \<Rightarrow> r) hid (cleandoc (or_empty chlog)))"
      and h': "strategy_dicts h' = strategy_dicts h @ [ds, dd]"
      using unfold ds dd by (auto simp: or_empty_def)
    have "delegates_of h' (StrategyConfiguration cid bs (length (strategy_dicts h))
                 (Suc (length (strategy_dicts h))) (length (context_dicts h))
                 (case rsk of None \<Rightarrow> RISK_LEVEL_LOW | Some r \<Rightarrow> r) hid (cleandoc (or_empty chlog))) = dd"
      by (simp add: delegates_of_def h' nth_two_second)
    with r new show "\<exists>cfg. r = Inr cfg \<and>
             (\<forall>sid\<in>set delegate_ids. \<forall>s. dict_get reg sid = Some s \<longrightarrow>
                (\<forall>y\<in>set (interfaces s). dict_get (delegates_of h' cfg) y = Some s))"
      by auto
  }
qed

text \<open>
  \<^verbatim>\<open>exception:v1\<close> and \<^verbatim>\<open>exception:v2\<close> requested together fail on \<^verbatim>\<open>exception\<close>;
  \<^verbatim>\<open>exception:v2\<close> requested on the base that has \<^verbatim>\<open>exception:v1\<close> replaces it.
\<close>

theorem duplicate_delegate_check_witness:
  "fst (create_strategy_configuration example_registry (\<lambda>s. s) ''cfg'' None
          (Some [''exception:v1'', ''exception:v2'']) None False None None None empty_store) =
     Inl (RuntimeError_duplicate ''cfg'' ''exception'') \<and>
   dict_get (delegates_of base_store base_configuration) ''exception'' =
     Some (Strategy_init ''exception:v1'' ''exception'' [''exception''] None no_result) \<and>
   create_strategy_configuration example_registry (\<lambda>s. s) ''derived'' (Some [''frame:v2''])
     (Some [''exception:v2'']) None False (Some base_configuration) None (Some [(''k'', PyInt 1)])
     base_store = (Inr derived_configuration, derived_store) \<and>
   dict_get (delegates_of derived_store derived_configuration) ''exception'' =
     Some (Strategy_init ''exception:v2'' ''exception'' [''exception''] None no_result)"
proof -
  let ?v1 = "Strategy_init ''exception:v1'' ''exception'' [''exception''] None no_result"
  let ?v2 = "Strategy_init ''exception:v2'' ''exception'' [''exception''] None no_result"
  have v1: "dict_get example_registry ''exception:v1'' = Some ?v1"
    and v2: "dict_get example_registry ''exception:v2'' = Some ?v2"
    and f2: "\<exists>s. dict_get example_registry ''frame:v2'' = Some s \<and> score s \<noteq> None"
    by (simp_all add: example_defs)
  have first: "\<exists>e. Inl (RuntimeError_duplicate ''cfg'' ''exception'') = Inl e \<and>
      ((\<forall>sid\<in>set (or_empty None). \<exists>s. dict_get example_registry sid = Some s \<and> score s \<noteq> None) \<and>
       (\<forall>sid\<in>set [''exception:v1'', ''exception:v2'']. \<exists>s. dict_get example_registry sid = Some s) \<longrightarrow>
       (\<exists>y. e = RuntimeError_duplicate ''cfg'' y))"
    using duplicate_delegate_check [OF conflicting_delegates_build, of 0 1 ?v1 ?v2 "''exception''"]
      v1 v2 by (simp add: Strategy_init_def)
  have second: "\<exists>cfg. Inr derived_configuration = Inr cfg \<and>
      (\<forall>sid\<in>set [''exception:v2'']. \<forall>s. dict_get example_registry sid = Some s \<longrightarrow>
         (\<forall>y\<in>set (interfaces s). dict_get (delegates_of derived_store cfg) y = Some s))"
    using duplicate_delegate_check [OF derived_build, of 0 0 ?v2 ?v2 "''exception''"] v2 f2
    by (simp add: or_empty_def requested_interfaces_def Strategy_init_def)
  have old: "dict_get (delegates_of base_store base_configuration) ''exception'' = Some ?v1"
    by (simp add: delegates_of_def base_store_def base_configuration_def dict_get_def)
  from second have new: "dict_get (delegates_of derived_store derived_configuration) ''exception'' = Some ?v2"
    using v2 by (simp add: Strategy_init_def)
  from first old new show ?thesis
    by (simp add: conflicting_delegates_build derived_build)
qed


lemma wide_base_build:
  "create_strategy_configuration wide_registry (\<lambda>s. s) ''base'' (Some [''frame:v1'', ''message:v1''])
     (Some [''exception:v1'', ''stacktrace:v1'']) None False None None (Some [(''depth'', PyInt 1)])
     empty_store =
   (Inr wide_base_configuration, wide_base_store)"
  by (simp add: example_defs dict_update_def wide_registry_def wide_base_configuration_def
      wide_base_store_def)

lemma wide_derived_build:
  "create_strategy_configuration wide_registry (\<lambda>s. s) ''derived'' (Some [''frame:v2''])
     (Some [''exception:v2'']) None False (Some wide_base_configuration) None
     (Some [(''k'', PyInt 1)]) wide_base_store =
   (Inr wide_derived_configuration, wide_derived_store)"
  by (simp add: example_defs dict_update_def wide_registry_def wide_base_configuration_def
      wide_base_store_def wide_derived_configuration_def wide_derived_store_def)

text \<open>
  Claim C9. A build from a valid base leaves every dictionary that was in the store as
  it was, so the base's strategies, delegates and initial context are unchanged, also
  when the build raises. The dictionaries of the built configuration are new objects:
  their addresses were not allocated before, so storing anything into a dictionary that
  existed before the build (those of the base among them) does not change what the
  built configuration holds. They hold the base's entries: the new strategies are the
  result of the loop on the base's strategies, in which every entry of a class that is
  not requested is the base's (for well formed dictionaries); every delegate of an
  interface that no requested delegate declares is the base's; every context entry
  whose key is not given again is the base's, and the given entries are there. With
  nothing requested each dictionary has exactly the contents of the base's. The copy is
  of the dictionaries: the strategies and context values they hold are shared by the
  base and the built configuration.
\<close>

theorem build_copies_base:
  fixes reg :: "(string, ('i, 'c, 'w) Strategy) dict"
  assumes valid: "valid_configuration h b"
    and build: "create_strategy_configuration reg cleandoc cid strategy_ids delegate_ids chlog hid
                  (Some b) rsk ic h = (r, h')"
  shows "take (length (strategy_dicts h)) (strategy_dicts h') = strategy_dicts h \<and>
         take (length (context_dicts h)) (context_dicts h') = context_dicts h \<and>
         strategies_of h' b = strategies_of h b \<and>
         delegates_of h' b = delegates_of h b \<and>
         initial_context_of h' b = initial_context_of h b \<and>
         (\<forall>cfg. r = Inr cfg \<longrightarrow>
            valid_configuration h' cfg \<and>
            length (strategy_dicts h) \<le> strategies cfg \<and>
            length (strategy_dicts h) \<le> delegates cfg \<and>
            length (context_dicts h) \<le> initial_context cfg \<and>
            (\<forall>a d. a < length (strategy_dicts h) \<longrightarrow>
               strategies_of (set_strategy_dict h' a d) cfg = strategies_of h' cfg \<and>
               delegates_of (set_strategy_dict h' a d) cfg = delegates_of h' cfg) \<and>
            (\<forall>a d. a < length (context_dicts h) \<longrightarrow>
               initial_context_of (set_context_dict h' a d) cfg = initial_context_of h' cfg) \<and>
            (or_empty strategy_ids = [] \<longrightarrow> strategies_of h' cfg = strategies_of h b) \<and>
            (or_empty delegate_ids = [] \<longrightarrow> delegates_of h' cfg = delegates_of h b) \<and>
            (or_empty ic = [] \<longrightarrow> initial_context_of h' cfg = initial_context_of h b) \<and>
            add_strategies reg cid (by_class_of (strategies_of h b)) (or_empty strategy_ids)
              (strategies_of h b) = Inr (strategies_of h' cfg) \<and>
            (well_formed (strategies_of h b) \<and> registered reg (or_empty strategy_ids) \<longrightarrow>
               (\<forall>k. class_of k \<notin> class_of ` set (or_empty strategy_ids) \<longrightarrow>
                  dict_get (strategies_of h' cfg) k = dict_get (strategies_of h b) k)) \<and>
            (\<forall>x. x \<notin> set (requested_interfaces reg (or_empty delegate_ids)) \<longrightarrow>
               dict_get (delegates_of h' cfg) x = dict_get (delegates_of h b) x) \<and>
            (\<forall>k. k \<notin> fst ` set (or_empty ic) \<longrightarrow>
               dict_get (initial_context_of h' cfg) k = dict_get (initial_context_of h b) k) \<and>
            (distinct (map fst (or_empty ic)) \<longrightarrow>
               (\<forall>kv\<in>set (or_empty ic). dict_get (initial_context_of h' cfg) (fst kv) = Some (snd kv))))"
proof -
  let ?n = "length (strategy_dicts h)"
  let ?m = "length (context_dicts h)"
  let ?ds0 = "strategies_of h b"
  let ?dd0 = "delegates_of h b"
  let ?dc0 = "initial_context_of h b"
  have vs: "strategies b < ?n" and vd: "delegates b < ?n" and vc: "initial_context b < ?m"
    using valid by (simp_all add: valid_configuration_def)
  from create_from_base [OF valid build]
  obtain x y z where shape: "h' = h\<lparr>strategy_dicts := strategy_dicts h @ [x, y],
                                    context_dicts := context_dicts h @ [z]\<rparr>"
    and success: "\<And>cfg. r = Inr cfg \<Longrightarrow>
        cfg = StrategyConfiguration cid (Some b) ?n (Suc ?n) ?m
                (case rsk of None \<Rightarrow> RISK_LEVEL_LOW | Some r \<Rightarrow> r) hid (cleandoc (or_empty chlog)) \<and>
        add_strategies reg cid (by_class_of ?ds0) (or_empty strategy_ids) ?ds0 = Inr x \<and>
        (\<exists>nd. add_delegates reg cid (or_empty delegate_ids) (?dd0, {}) = Inr (y, nd)) \<and>
        z = (if or_empty ic \<noteq> [] then dict_update ?dc0 (or_empty ic) else ?dc0)"
    by blast
  have frame: "take ?n (strategy_dicts h') = strategy_dicts h"
       "take ?m (context_dicts h') = context_dicts h"
    by (simp_all add: shape)
  have base: "strategies_of h' b = ?ds0" "delegates_of h' b = ?dd0" "initial_context_of h' b = ?dc0"
    using vs vd vc by (simp_all add: shape strategies_of_def delegates_of_def initial_context_of_def nth_append)
  have rest: "valid_configuration h' cfg \<and>
            ?n \<le> strategies cfg \<and> ?n \<le> delegates cfg \<and> ?m \<le> initial_context cfg \<and>
            (\<forall>a d. a < ?n \<longrightarrow>
               strategies_of (set_strategy_dict h' a d) cfg = strategies_of h' cfg \<and>
               delegates_of (set_strategy_dict h' a d) cfg = delegates_of h' cfg) \<and>
            (\<forall>a d. a < ?m \<longrightarrow>
               initial_context_of (set_context_dict h' a d) cfg = initial_context_of h' cfg) \<and>
            (or_empty strategy_ids = [] \<longrightarrow> strategies_of h' cfg = ?ds0) \<and>
            (or_empty delegate_ids = [] \<longrightarrow> delegates_of h' cfg = ?dd0) \<and>
            (or_empty ic = [] \<longrightarrow> initial_context_of h' cfg = ?dc0) \<and>
            add_strategies reg cid (by_class_of ?ds0) (or_empty strategy_ids) ?ds0 =
              Inr (strategies_of h' cfg) \<and>
            (well_formed ?ds0 \<and> registered reg (or_empty strategy_ids) \<longrightarrow>
               (\<forall>k. class_of k \<notin> class_of ` set (or_empty strategy_ids) \<longrightarrow>
                  dict_get (strategies_of h' cfg) k = dict_get ?ds0 k)) \<and>
            (\<forall>x. x \<notin> set (requested_interfaces reg (or_empty delegate_ids)) \<longrightarrow>
               dict_get (delegates_of h' cfg) x = dict_get ?dd0 x) \<and>
            (\<forall>k. k \<notin> fst ` set (or_empty ic) \<longrightarrow>
               dict_get (initial_context_of h' cfg) k = dict_get ?dc0 k) \<and>
            (distinct (map fst (or_empty ic)) \<longrightarrow>
               (\<forall>kv\<in>set (or_empty ic). dict_get (initial_context_of h' cfg) (fst kv) = Some (snd kv)))"
    if r: "r = Inr cfg" for cfg
  proof -
    note s = success [OF r]
    have cfg: "strategies cfg = ?n" "delegates cfg = Suc ?n" "initial_context cfg = ?m"
      using s by simp_all
    have sx: "add_strategies reg cid (by_class_of ?ds0) (or_empty strategy_ids) ?ds0 = Inr x"
      and sy: "\<exists>nd. add_delegates reg cid (or_empty delegate_ids) (?dd0, {}) = Inr (y, nd)"
      and sz: "z = (if or_empty ic \<noteq> [] then dict_update ?dc0 (or_empty ic) else ?dc0)"
      using s by blast+
    have reads: "strategies_of h' cfg = x" "delegates_of h' cfg = y" "initial_context_of h' cfg = z"
      by (simp_all add: cfg shape strategies_of_def delegates_of_def initial_context_of_def nth_two_second)
    have z: "z = dict_update ?dc0 (or_empty ic)"
      using sz by (auto simp: dict_update_def)
    have "valid_configuration h' cfg"
      by (simp add: valid_configuration_def cfg shape)
    moreover have "\<forall>a d. a < ?n \<longrightarrow>
               strategies_of (set_strategy_dict h' a d) cfg = strategies_of h' cfg \<and>
               delegates_of (set_strategy_dict h' a d) cfg = delegates_of h' cfg"
      by (simp add: cfg shape strategies_of_def delegates_of_def set_strategy_dict_def
          list_update_append nth_append)
    moreover have "\<forall>a d. a < ?m \<longrightarrow>
               initial_context_of (set_context_dict h' a d) cfg = initial_context_of h' cfg"
      by (simp add: cfg shape initial_context_of_def set_context_dict_def list_update_append
          nth_append)
    moreover have "or_empty strategy_ids = [] \<longrightarrow> strategies_of h' cfg = ?ds0"
      using sx by (auto simp: reads)
    moreover have "or_empty delegate_ids = [] \<longrightarrow> delegates_of h' cfg = ?dd0"
      using sy by (auto simp: reads)
    moreover have "or_empty ic = [] \<longrightarrow> initial_context_of h' cfg = ?dc0"
      using sz by (auto simp: reads)
    moreover have "add_strategies reg cid (by_class_of ?ds0) (or_empty strategy_ids) ?ds0 =
              Inr (strategies_of h' cfg)"
      using sx by (simp add: reads)
    moreover have "well_formed ?ds0 \<and> registered reg (or_empty strategy_ids) \<longrightarrow>
               (\<forall>k. class_of k \<notin> class_of ` set (or_empty strategy_ids) \<longrightarrow>
                  dict_get (strategies_of h' cfg) k = dict_get ?ds0 k)"
      using add_strategies_other_class [OF _ _ sx] by (simp add: reads)
    moreover have "\<forall>x. x \<notin> set (requested_interfaces reg (or_empty delegate_ids)) \<longrightarrow>
               dict_get (delegates_of h' cfg) x = dict_get ?dd0 x"
      using sy add_delegates_other by (fastforce simp: reads)
    moreover have "\<forall>k. k \<notin> fst ` set (or_empty ic) \<longrightarrow>
               dict_get (initial_context_of h' cfg) k = dict_get ?dc0 k"
      by (simp add: reads z dict_get_dict_update_other)
    moreover have "distinct (map fst (or_empty ic)) \<longrightarrow>
               (\<forall>kv\<in>set (or_empty ic). dict_get (initial_context_of h' cfg) (fst kv) = Some (snd kv))"
      by (auto simp: reads z intro: dict_get_dict_update_entry)
    ultimately show ?thesis by (simp add: cfg)
  qed
  from frame base rest show ?thesis by blast
qed

text \<open>
  \<^verbatim>\<open>derived\<close> built on the wide base: the base still holds \<^verbatim>\<open>frame:v1\<close> and
  \<^verbatim>\<open>message:v1\<close>; the derived configuration holds the inherited \<^verbatim>\<open>message:v1\<close>, the
  inherited delegate of \<^verbatim>\<open>stacktrace\<close> and the inherited context entry \<^verbatim>\<open>depth\<close>
  beside what was requested; and emptying the base's strategies afterwards leaves the
  derived configuration with both of its strategies.
\<close>

theorem build_copies_base_witness:
  "valid_configuration wide_base_store wide_base_configuration \<and>
   create_strategy_configuration wide_registry (\<lambda>s. s) ''derived'' (Some [''frame:v2''])
     (Some [''exception:v2'']) None False (Some wide_base_configuration) None
     (Some [(''k'', PyInt 1)]) wide_base_store =
     (Inr wide_derived_configuration, wide_derived_store) \<and>
   map fst (strategies_of wide_derived_store wide_base_configuration) =
     [''frame:v1'', ''message:v1''] \<and>
   strategies_of wide_derived_store wide_base_configuration =
     strategies_of wide_base_store wide_base_configuration \<and>
   dict_get (strategies_of wide_derived_store wide_derived_configuration) ''message:v1'' =
     Some (Strategy_init ''message:v1'' ''message'' [''message''] (Some 5) no_result) \<and>
   dict_get (delegates_of wide_derived_store wide_derived_configuration) ''stacktrace'' =
     Some (Strategy_init ''stacktrace:v1'' ''stacktrace'' [''stacktrace''] None no_result) \<and>
   dict_get (initial_context_of wide_derived_store wide_derived_configuration) ''depth'' =
     Some (PyInt 1) \<and>
   dict_get (initial_context_of wide_derived_store wide_derived_configuration) ''k'' =
     Some (PyInt 1) \<and>
   map fst (strategies_of (set_strategy_dict wide_derived_store (strategies wide_base_configuration) [])
              wide_derived_configuration) = [''message:v1'', ''frame:v2'']"
proof -
  have valid: "valid_configuration wide_base_store wide_base_configuration"
    by (simp add: valid_configuration_def wide_base_store_def wide_base_configuration_def)
  have a: "strategies wide_base_configuration < length (strategy_dicts wide_base_store)"
    by (simp add: wide_base_store_def wide_base_configuration_def)
  have wf: "well_formed (strategies_of wide_base_store wide_base_configuration)"
    by (simp add: well_formed_def class_of_def strategies_of_def wide_base_store_def
        wide_base_configuration_def Strategy_init_def)
  have reg: "registered wide_registry (or_empty (Some [''frame:v2'']))"
    by (simp add: registered_def class_of_def or_empty_def wide_registry_def example_registry_def
        register_def Strategy_init_def dict_get_def dict_set_def)
  have other_class: "class_of ''message:v1'' \<notin> class_of ` set (or_empty (Some [''frame:v2'']))"
    by (simp add: class_of_def or_empty_def)
  have other_interface:
    "''stacktrace'' \<notin> set (requested_interfaces wide_registry (or_empty (Some [''exception:v2''])))"
    by (simp add: requested_interfaces_def or_empty_def wide_registry_def example_registry_def
        register_def Strategy_init_def dict_get_def dict_set_def)
  have other_key: "''depth'' \<notin> fst ` set (or_empty (Some [(''k'', PyInt 1)]))"
    and given: "distinct (map fst (or_empty (Some [(''k'', PyInt 1)])))"
               "(''k'', PyInt 1) \<in> set (or_empty (Some [(''k'', PyInt 1)]))"
    by (simp_all add: or_empty_def)
  note built = build_copies_base [OF valid wide_derived_build]
  have frame: "strategies_of wide_derived_store wide_base_configuration =
                 strategies_of wide_base_store wide_base_configuration"
    using built by blast
  have later: "strategies_of (set_strategy_dict wide_derived_store (strategies wide_base_configuration) [])
          wide_derived_configuration = strategies_of wide_derived_store wide_derived_configuration"
    using built a by blast
  have s: "dict_get (strategies_of wide_derived_store wide_derived_configuration) ''message:v1'' =
           dict_get (strategies_of wide_base_store wide_base_configuration) ''message:v1''"
    using built wf reg other_class by blast
  have d: "dict_get (delegates_of wide_derived_store wide_derived_configuration) ''stacktrace'' =
           dict_get (delegates_of wide_base_store wide_base_configuration) ''stacktrace''"
    using built other_interface by blast
  have c: "dict_get (initial_context_of wide_derived_store wide_derived_configuration) ''depth'' =
           dict_get (initial_context_of wide_base_store wide_base_configuration) ''depth''"
    using built other_key by blast
  have k: "dict_get (initial_context_of wide_derived_store wide_derived_configuration) ''k'' =
           Some (PyInt 1)"
    using built given by fastforce
  have base_values:
    "map fst (strategies_of wide_base_store wide_base_configuration) = [''frame:v1'', ''message:v1'']"
    "dict_get (strategies_of wide_base_store wide_base_configuration) ''message:v1'' =
       Some (Strategy_init ''message:v1'' ''message'' [''message''] (Some 5) no_result)"
    "dict_get (delegates_of wide_base_store wide_base_configuration) ''stacktrace'' =
       Some (Strategy_init ''stacktrace:v1'' ''stacktrace'' [''stacktrace''] None no_result)"
    "dict_get (initial_context_of wide_base_store wide_base_configuration) ''depth'' = Some (PyInt 1)"
    by (simp_all add: strategies_of_def delegates_of_def initial_context_of_def wide_base_store_def
        wide_base_configuration_def dict_get_def)
  have own: "map fst (strategies_of wide_derived_store wide_derived_configuration) =
               [''message:v1'', ''frame:v2'']"
    by (simp add: strategies_of_def wide_derived_store_def wide_derived_configuration_def)
  show ?thesis
    using valid wide_derived_build frame s d c k base_values own by (simp add: later)
qed


end
